(* ===== verification/Prelude.thy ===== *)
theory Prelude
  imports Main "HOL-Library.Word" "HOL-Library.Sublist"
begin

text \<open>
  Shared vocabulary of the development.
  \<^item> An \<open>async\<close> TypeScript function that may \<open>throw\<close> is a state transformer with an
    error result, \<open>('s, 'e, 'a) exec = 's \<Rightarrow> ('e + 'a) \<times> 's\<close>: \<open>await\<close> of a call is
    \<open>bindE\<close>, a \<open>throw\<close> is \<open>throwE\<close>, a rejected promise propagates through every later
    \<open>bindE\<close> unchanged, exactly as an uncaught exception leaves the function.
  \<^item> \<open>mapE\<close> runs an operation over a list in order and stops at the first error; it is the
    reference form of the node's per-item \<open>for\<close> loop.
  \<^item> The JavaScript conversions the node relies on: a template literal of a possibly
    \<open>undefined\<close> string (\<open>js_template\<close>) and the \<open>||\<close> default on a possibly
    \<open>undefined\<close> or empty string (\<open>js_or\<close>).
\<close>

named_theorems exec_simps "equations that evaluate exec computations"

type_synonym ('s, 'e, 'a) exec = "'s \<Rightarrow> ('e + 'a) \<times> 's"

type_synonym bytes = "8 word list"

definition ret :: "'a \<Rightarrow> ('s, 'e, 'a) exec" where
  "ret a = (\<lambda>s. (Inr a, s))"

definition throwE :: "'e \<Rightarrow> ('s, 'e, 'a) exec" where
  "throwE e = (\<lambda>s. (Inl e, s))"

definition liftE :: "'e + 'a \<Rightarrow> ('s, 'e, 'a) exec" where
  "liftE r = (\<lambda>s. (r, s))"

definition bindE :: "('s, 'e, 'a) exec \<Rightarrow> ('a \<Rightarrow> ('s, 'e, 'b) exec) \<Rightarrow> ('s, 'e, 'b) exec" where
  "bindE m f = (\<lambda>s. case m s of (Inl e, s') \<Rightarrow> (Inl e, s') | (Inr a, s') \<Rightarrow> f a s')"

definition mapR :: "('a \<Rightarrow> 'b) \<Rightarrow> ('s, 'e, 'a) exec \<Rightarrow> ('s, 'e, 'b) exec" where
  "mapR g m = bindE m (\<lambda>a. ret (g a))"

fun mapE :: "('a \<Rightarrow> ('s, 'e, 'b) exec) \<Rightarrow> 'a list \<Rightarrow> ('s, 'e, 'b list) exec" where
  "mapE f [] = ret []"
| "mapE f (x # xs) = bindE (f x) (\<lambda>y. bindE (mapE f xs) (\<lambda>ys. ret (y # ys)))"

text \<open>JavaScript's \<open>`${v}`\<close> on a value read as \<open>string | undefined\<close>.\<close>

fun js_template :: "string option \<Rightarrow> string" where
  "js_template None = ''undefined''"
| "js_template (Some s) = s"

text \<open>JavaScript's \<open>v || d\<close> on \<open>string | undefined\<close>: both \<open>undefined\<close> and the
  empty string are falsy.\<close>

fun js_or :: "string option \<Rightarrow> string \<Rightarrow> string" where
  "js_or None d = d"
| "js_or (Some s) d = (if s = [] then d else s)"

subsection \<open>The exec monad\<close>

lemma ret_apply [exec_simps]: "ret a s = (Inr a, s)"
  and throwE_apply [exec_simps]: "throwE e s = (Inl e, s)"
  and liftE_apply [exec_simps]: "liftE r s = (r, s)"
  by (simp_all add: ret_def throwE_def liftE_def)

lemma bindE_apply [exec_simps]:
  "bindE m f s = (case m s of (Inl e, s') \<Rightarrow> (Inl e, s') | (Inr a, s') \<Rightarrow> f a s')"
  by (simp add: bindE_def)

lemma bindE_ret_left [simp]: "bindE (ret a) f = f a"
  by (simp add: fun_eq_iff exec_simps)

lemma bindE_ret_right [simp]: "bindE m ret = m"
  by (auto simp: fun_eq_iff exec_simps split: prod.splits sum.splits)

lemma bindE_throwE [simp]: "bindE (throwE e) f = throwE e"
  by (simp add: fun_eq_iff exec_simps)

lemma bindE_assoc [simp]: "bindE (bindE m f) g = bindE m (\<lambda>a. bindE (f a) g)"
  by (auto simp: fun_eq_iff exec_simps split: prod.splits sum.splits)

lemma bindE_liftE_Inl [simp]: "bindE (liftE (Inl e)) f = throwE e"
  and bindE_liftE_Inr [simp]: "bindE (liftE (Inr a)) f = f a"
  by (simp_all add: fun_eq_iff exec_simps)

lemma mapR_apply [exec_simps]:
  "mapR g m s = (map_sum id g (fst (m s)), snd (m s))"
  by (simp add: mapR_def exec_simps split: prod.splits sum.splits)

lemma mapE_append:
  "mapE f (xs @ ys) = bindE (mapE f xs) (\<lambda>as. bindE (mapE f ys) (\<lambda>bs. ret (as @ bs)))"
  by (induction xs) simp_all

lemma mapE_cong:
  "(\<And>x. x \<in> set xs \<Longrightarrow> f x = g x) \<Longrightarrow> mapE f xs = mapE g xs"
  by (induction xs) simp_all

lemma mapE_map: "mapE f (map g xs) = mapE (f \<circ> g) xs"
  by (induction xs) simp_all

lemma mapE_Cons_Inl:
  "f x s = (Inl e, s1) \<Longrightarrow> mapE f (x # xs) s = (Inl e, s1)"
  by (simp add: exec_simps)

lemma mapE_Cons_Inr:
  "f x s = (Inr y, s1) \<Longrightarrow>
   mapE f (x # xs) s = (map_sum id (Cons y) (fst (mapE f xs s1)), snd (mapE f xs s1))"
  by (simp add: exec_simps split: prod.splits sum.splits)

lemma mapE_Inr_length:
  "fst (mapE f xs s) = Inr ys \<Longrightarrow> length ys = length xs"
proof (induction xs arbitrary: s ys)
  case Nil
  then show ?case by (simp add: exec_simps)
next
  case (Cons x xs)
  obtain r s1 where fx: "f x s = (r, s1)"
    by fastforce
  show ?case
  proof (cases r)
    case (Inl e)
    with fx Cons.prems show ?thesis
      by (simp del: mapE.simps add: mapE_Cons_Inl)
  next
    case (Inr y)
    with fx Cons.prems obtain ys' where "fst (mapE f xs s1) = Inr ys'" and "ys = y # ys'"
      by (cases "fst (mapE f xs s1)") (simp_all del: mapE.simps add: mapE_Cons_Inr)
    with Cons.IH show ?thesis
      by simp
  qed
qed

text \<open>An operation that succeeds from every state gives \<open>mapE\<close> a result of the same length.\<close>

lemma mapE_total:
  assumes "\<And>x s. x \<in> set xs \<Longrightarrow> \<not> isl (fst (f x s))"
  shows "\<exists>ys. fst (mapE f xs s) = Inr ys \<and> length ys = length xs"
  using assms
proof (induction xs arbitrary: s)
  case Nil
  then show ?case by (simp add: exec_simps)
next
  case (Cons x xs)
  obtain r s1 where fx: "f x s = (r, s1)"
    by fastforce
  have "\<not> isl r"
    using Cons.prems [of x s] fx by simp
  then obtain y where h: "f x s = (Inr y, s1)"
    using fx by (cases r) auto
  obtain ys where "fst (mapE f xs s1) = Inr ys" and "length ys = length xs"
    using Cons.IH [of s1] Cons.prems by auto
  with h show ?case
    by (auto simp: exec_simps split: prod.splits)
qed

subsection \<open>JavaScript conversions\<close>

lemma js_or_nonempty: "d \<noteq> [] \<Longrightarrow> js_or v d \<noteq> []"
  by (cases v) simp_all

lemma js_or_eq: "js_or v d = (if v = None \<or> v = Some [] then d else the v)"
  by (cases v) simp_all

end
