(* ===== verification/Descriptions.thy ===== *)
theory Descriptions
  imports Prelude
begin

text \<open>
  The declarative half of the package: the n8n property descriptors
  (\<open>INodeProperties\<close>) as a record, the credential type \<open>ReceiptliApi\<close>
  (\<open>src/credentials/ReceiptliApi.credentials.ts\<close>) and the node description of
  \<open>Receiptli\<close> (\<open>src/nodes/Receiptli/Receiptli.node.ts\<close>, the \<open>description\<close> field).
  The host reads these: a parameter that the user left unset takes the descriptor's
  \<open>default\<close>, and an \<open>options\<close> field can only be set to one of its option values
  (\<open>resolve_parameter\<close>, \<open>valid_config\<close>). The lemmas show the node's parameters
  well formed (distinct names, option defaults among the options) and that an options
  parameter therefore always resolves to one of its option values.
\<close>

datatype property_type = PString | POptions

record property_option =
  option_name :: string
  option_value :: string

record node_property =
  prop_displayName :: string
  prop_name :: string
  prop_type :: property_type
  prop_default :: string
  prop_required :: bool
  prop_password :: bool
  prop_rows :: "nat option"
  prop_options :: "property_option list"
  prop_description :: "string option"

record credential_type =
  cred_name :: string
  cred_displayName :: string
  cred_properties :: "node_property list"

record credential_ref =
  cref_name :: string
  cref_required :: bool

record node_type_description =
  desc_displayName :: string
  desc_name :: string
  desc_icon :: string
  desc_group :: "string list"
  desc_version :: nat
  desc_description :: string
  desc_defaults_name :: string
  desc_inputs :: "string list"
  desc_outputs :: "string list"
  desc_credentials :: "credential_ref list"
  desc_properties :: "node_property list"

subsection \<open>The credential type \<open>ReceiptliApi\<close>\<close>

definition apiKey_property :: node_property where
  "apiKey_property =
     \<lparr>prop_displayName = ''API Key'', prop_name = ''apiKey'', prop_type = PString,
      prop_default = '''', prop_required = True, prop_password = True, prop_rows = None,
      prop_options = [], prop_description = None\<rparr>"

definition baseUrl_property :: node_property where
  "baseUrl_property =
     \<lparr>prop_displayName = ''Base URL'', prop_name = ''baseUrl'', prop_type = PString,
      prop_default = ''http://localhost:3000'', prop_required = True, prop_password = False,
      prop_rows = None, prop_options = [], prop_description = None\<rparr>"

definition ReceiptliApi :: credential_type where
  "ReceiptliApi =
     \<lparr>cred_name = ''ReceiptliApi'', cred_displayName = ''Text Extractor API'',
      cred_properties = [apiKey_property, baseUrl_property]\<rparr>"

subsection \<open>The node description of \<open>Receiptli\<close>\<close>

definition binaryPropertyName_property :: node_property where
  "binaryPropertyName_property =
     \<lparr>prop_displayName = ''Binary Property Name'', prop_name = ''binaryPropertyName'',
      prop_type = PString, prop_default = ''data'', prop_required = True, prop_password = False,
      prop_rows = None, prop_options = [],
      prop_description = Some ''Name of the binary property containing the uploaded file''\<rparr>"

definition schema_property :: node_property where
  "schema_property =
     \<lparr>prop_displayName = ''Schema (JSON)'', prop_name = ''schema'', prop_type = PString,
      prop_default = '''', prop_required = True, prop_password = False, prop_rows = Some 6,
      prop_options = [], prop_description = None\<rparr>"

definition language_property :: node_property where
  "language_property =
     \<lparr>prop_displayName = ''Language'', prop_name = ''language'', prop_type = POptions,
      prop_default = ''eng'', prop_required = False, prop_password = False, prop_rows = None,
      prop_options = [\<lparr>option_name = ''English'', option_value = ''eng''\<rparr>,
                      \<lparr>option_name = ''Arabic'', option_value = ''ar''\<rparr>],
      prop_description = None\<rparr>"

definition Receiptli_description :: node_type_description where
  "Receiptli_description =
     \<lparr>desc_displayName = ''Receiptli'', desc_name = ''receiptli'',
      desc_icon = ''file:receiptli.svg'', desc_group = [''transform''], desc_version = 1,
      desc_description = ''Automatically parse forms, resumes, and invoices using AI. Turn unstructured documents into structured insights '' @ [CHR 0xE2, CHR 0x80, CHR 0x94] @ '' no templates required.'',
      desc_defaults_name = ''Receiptli'', desc_inputs = [''main''], desc_outputs = [''main''],
      desc_credentials = [\<lparr>cref_name = ''ReceiptliApi'', cref_required = True\<rparr>],
      desc_properties = [binaryPropertyName_property, schema_property, language_property]\<rparr>"

subsection \<open>How the host reads a description\<close>

definition find_property :: "node_property list \<Rightarrow> string \<Rightarrow> node_property option" where
  "find_property ps n = find (\<lambda>p. prop_name p = n) ps"

text \<open>\<open>getNodeParameter(n, i)\<close> for a parameter the node declares: the value the user
  configured for item \<open>i\<close>, or the descriptor's default.\<close>

definition resolve_parameter :: "node_property list \<Rightarrow> (string \<rightharpoonup> string) \<Rightarrow> string \<Rightarrow> string option" where
  "resolve_parameter ps cfg n =
     (case find_property ps n of
        None \<Rightarrow> None
      | Some p \<Rightarrow> (case cfg n of Some v \<Rightarrow> Some v | None \<Rightarrow> Some (prop_default p)))"

text \<open>The editor only lets an \<open>options\<close> field take one of its option values.\<close>

definition option_values :: "node_property \<Rightarrow> string list" where
  "option_values p = map option_value (prop_options p)"

definition valid_config :: "node_property list \<Rightarrow> (string \<rightharpoonup> string) \<Rightarrow> bool" where
  "valid_config ps cfg \<longleftrightarrow>
     list_all (\<lambda>p. prop_type p = POptions \<longrightarrow>
                    (case cfg (prop_name p) of None \<Rightarrow> True | Some v \<Rightarrow> v \<in> set (option_values p))) ps"

subsection \<open>Well-formed descriptions\<close>

definition wf_property :: "node_property \<Rightarrow> bool" where
  "wf_property p \<longleftrightarrow>
     prop_name p \<noteq> [] \<and>
     (case prop_type p of
        PString \<Rightarrow> prop_options p = []
      | POptions \<Rightarrow> distinct (option_values p) \<and> prop_default p \<in> set (option_values p))"

definition wf_properties :: "node_property list \<Rightarrow> bool" where
  "wf_properties ps \<longleftrightarrow> distinct (map prop_name ps) \<and> list_all wf_property ps"

lemmas property_defs =
  apiKey_property_def baseUrl_property_def binaryPropertyName_property_def
  schema_property_def language_property_def

lemma find_property_Some:
  "find_property ps n = Some p \<Longrightarrow> p \<in> set ps \<and> prop_name p = n"
  by (auto simp: find_property_def find_Some_iff)

lemma find_property_distinct:
  "distinct (map prop_name ps) \<Longrightarrow> p \<in> set ps \<Longrightarrow> find_property ps (prop_name p) = Some p"
  by (induction ps) (auto simp: find_property_def)

text \<open>In a well-formed description, an options parameter resolved under a valid
  configuration is one of its option values.\<close>

lemma resolve_options_parameter:
  assumes "wf_properties ps" "valid_config ps cfg" "p \<in> set ps" "prop_type p = POptions"
  shows "\<exists>v. resolve_parameter ps cfg (prop_name p) = Some v \<and> v \<in> set (option_values p)"
proof -
  have found: "find_property ps (prop_name p) = Some p"
    using assms(1,3) by (simp add: wf_properties_def find_property_distinct)
  have wf: "wf_property p"
    using assms(1,3) by (simp add: wf_properties_def list_all_iff)
  have cfg: "case cfg (prop_name p) of None \<Rightarrow> True | Some v \<Rightarrow> v \<in> set (option_values p)"
    using assms(2,3,4) by (auto simp: valid_config_def list_all_iff)
  show ?thesis
    using found wf cfg assms(4)
    by (auto simp: resolve_parameter_def wf_property_def split: option.splits)
qed

lemma Receiptli_properties_wf: "wf_properties (desc_properties Receiptli_description)"
  by (simp add: wf_properties_def wf_property_def option_values_def Receiptli_description_def
      property_defs)

end
