(* ===== verification/Host.thy ===== *)
theory Host
  imports Prelude
begin

text \<open>
  The interface between the node and its host (n8n's \<open>IExecuteFunctions\<close>). The node
  calls five host functions; following the usual treatment of IO, the host is a record of
  those functions, passed explicitly, and the only mutable thing outside the node is the
  remote service, a world of arbitrary type \<open>'w\<close>:
  \<^item> \<open>getInputData()\<close>: the items, \<open>input_data\<close>;
  \<^item> \<open>getCredentials(name)\<close>: the stored credential object, or a rejection;
  \<^item> \<open>getNodeParameter(name, i)\<close>: the parameter's value for item \<open>i\<close>, or a throw;
  \<^item> \<open>helpers.getBinaryDataBuffer(i, name)\<close>: the bytes of a binary attachment, or a rejection;
  \<^item> \<open>helpers.request(options)\<close>: one HTTP exchange with the remote service; it may
    change the remote's state and its reply (a JSON value of type \<open>'j\<close>) or its failure
    depends on that state.
  The first four only read host state the node never writes, so they are pure functions
  returning a sum; \<open>http_request\<close> is an \<open>exec\<close> step on \<open>'w run_state\<close>, which
  holds the remote world and the list of requests sent so far, so that what left the
  node, and in which order, is part of every result.
  \<open>http_transport\<close> gives \<open>helpers.request\<close> the semantics its options ask for
  (\<open>timeout\<close>: a reply slower than the bound is abandoned; non-2xx statuses reject),
  over a server that answers with a status, a body and a latency.
\<close>

subsection \<open>Data the node exchanges with the host\<close>

text \<open>\<open>IBinaryData\<close>: \<open>fileName\<close> is optional, \<open>mimeType\<close> is not.\<close>

record binary_data =
  bin_data :: string
  bin_mimeType :: string
  bin_fileName :: "string option"

text \<open>\<open>INodeExecutionData\<close> as far as the node reads it: \<open>binary\<close> may be absent.\<close>

record input_item =
  item_binary :: "(string \<rightharpoonup> binary_data) option"

text \<open>\<open>INodeExecutionData\<close> as the node writes it: \<open>{ json: response }\<close>.\<close>

record 'j output_item =
  json :: 'j

record file_part =
  file_value :: bytes
  file_filename :: string
  file_contentType :: string

record form_data =
  form_file :: file_part
  form_schema :: string
  form_language :: string

record request =
  req_method :: string
  req_url :: string
  req_headers :: "(string \<times> string) list"
  req_formData :: form_data
  req_json :: bool
  req_timeout :: nat

datatype request_error = Timeout | HttpStatus nat | NetworkError

datatype node_error =
    NodeError string
  | CredentialsError string
  | ParameterError string nat
  | BinaryBufferError nat string
  | RequestError request_error

record ('w, 'j) host =
  input_data :: "input_item list"
  credentials_of :: "string \<rightharpoonup> (string \<rightharpoonup> string)"
  node_parameter :: "string \<Rightarrow> nat \<Rightarrow> string option"
  binary_buffer :: "nat \<Rightarrow> string \<Rightarrow> bytes option"
  remote :: "'w \<Rightarrow> request \<Rightarrow> (request_error + 'j) \<times> 'w"

record 'w run_state =
  world :: 'w
  sent :: "request list"

type_synonym ('w, 'a) node_exec = "('w run_state, node_error, 'a) exec"

subsection \<open>Host calls\<close>

definition get_credentials :: "('w, 'j) host \<Rightarrow> string \<Rightarrow> node_error + (string \<rightharpoonup> string)" where
  "get_credentials h n =
     (case credentials_of h n of None \<Rightarrow> Inl (CredentialsError n) | Some c \<Rightarrow> Inr c)"

definition get_node_parameter :: "('w, 'j) host \<Rightarrow> string \<Rightarrow> nat \<Rightarrow> node_error + string" where
  "get_node_parameter h n i =
     (case node_parameter h n i of None \<Rightarrow> Inl (ParameterError n i) | Some v \<Rightarrow> Inr v)"

definition get_binary_data_buffer :: "('w, 'j) host \<Rightarrow> nat \<Rightarrow> string \<Rightarrow> node_error + bytes" where
  "get_binary_data_buffer h i n =
     (case binary_buffer h i n of None \<Rightarrow> Inl (BinaryBufferError i n) | Some b \<Rightarrow> Inr b)"

definition http_request :: "('w, 'j) host \<Rightarrow> request \<Rightarrow> ('w, 'j) node_exec" where
  "http_request h req =
     (\<lambda>s. case remote h (world s) req of
            (r, w') \<Rightarrow> (map_sum RequestError id r, s\<lparr>world := w', sent := sent s @ [req]\<rparr>))"

text \<open>The remote service alone, as an \<open>exec\<close> over its world: answering a list of
  requests in order, stopping at the first failure.\<close>

definition serve :: "('w, 'j) host \<Rightarrow> request list \<Rightarrow> ('w, request_error, 'j list) exec" where
  "serve h = mapE (\<lambda>q w. remote h w q)"

subsection \<open>The transport behind \<open>helpers.request\<close>\<close>

datatype 'j server_reply = Reply nat 'j nat | Unreachable

definition http_transport ::
  "('w \<Rightarrow> request \<Rightarrow> 'j server_reply \<times> 'w) \<Rightarrow> 'w \<Rightarrow> request \<Rightarrow> (request_error + 'j) \<times> 'w" where
  "http_transport srv w req =
     (case srv w req of
        (Unreachable, w') \<Rightarrow> (Inl NetworkError, w')
      | (Reply status body latency, w') \<Rightarrow>
          (if req_timeout req < latency then (Inl Timeout, w')
           else if 200 \<le> status \<and> status < 300 then (Inr body, w')
           else (Inl (HttpStatus status), w')))"

subsection \<open>Sending requests\<close>

lemma http_request_apply:
  "http_request h req s =
     (map_sum RequestError id (fst (remote h (world s) req)),
      s\<lparr>world := snd (remote h (world s) req), sent := sent s @ [req]\<rparr>)"
  by (simp add: http_request_def split: prod.splits)

text \<open>Running the node's requests is running the remote service on them: the result and
  the remote's final state are those of \<open>serve\<close>.\<close>

lemma mapE_http_request:
  "fst (mapE (http_request h) qs s) = map_sum RequestError id (fst (serve h qs (world s))) \<and>
   world (snd (mapE (http_request h) qs s)) = snd (serve h qs (world s))"
proof (induction qs arbitrary: s)
  case Nil
  then show ?case by (simp add: serve_def exec_simps)
next
  case (Cons q qs)
  show ?case
  proof (cases "remote h (world s) q")
    case (Pair r w')
    then show ?thesis
      using Cons.IH [of "s\<lparr>world := w', sent := sent s @ [q]\<rparr>"]
      by (cases r) (auto simp: serve_def exec_simps http_request_apply split: prod.splits sum.splits)
  qed
qed

text \<open>What leaves the node is always a prefix of the requests, in order.\<close>

lemma mapE_http_request_sent:
  "\<exists>j \<le> length qs. sent (snd (mapE (http_request h) qs s)) = sent s @ take j qs"
proof (induction qs arbitrary: s)
  case Nil
  then show ?case by (simp add: exec_simps)
next
  case (Cons q qs)
  obtain r w' where rq: "remote h (world s) q = (r, w')"
    by fastforce
  let ?s1 = "s\<lparr>world := w', sent := sent s @ [q]\<rparr>"
  show ?case
  proof (cases r)
    case (Inl e)
    with rq have "http_request h q s = (Inl (RequestError e), ?s1)"
      by (simp add: http_request_apply)
    then show ?thesis
      by (intro exI [of _ 1]) (simp del: mapE.simps add: mapE_Cons_Inl)
  next
    case (Inr y)
    with rq have step: "http_request h q s = (Inr y, ?s1)"
      by (simp add: http_request_apply)
    obtain j where "j \<le> length qs" and "sent (snd (mapE (http_request h) qs ?s1)) = sent ?s1 @ take j qs"
      using Cons.IH by blast
    with step show ?thesis
      by (intro exI [of _ "Suc j"]) (simp del: mapE.simps add: mapE_Cons_Inr)
  qed
qed

text \<open>Against a remote that always answers, every request is sent, once, in order.\<close>

lemma mapE_http_request_total:
  assumes "\<And>w q. \<not> isl (fst (remote h w q))"
  shows "sent (snd (mapE (http_request h) qs s)) = sent s @ qs"
proof (induction qs arbitrary: s)
  case Nil
  then show ?case by (simp add: exec_simps)
next
  case (Cons q qs)
  obtain j w' where "remote h (world s) q = (Inr j, w')"
    using assms [of "world s" q] by (cases "remote h (world s) q"; cases "fst (remote h (world s) q)") auto
  then have "http_request h q s = (Inr j, s\<lparr>world := w', sent := sent s @ [q]\<rparr>)"
    by (simp add: http_request_apply)
  then show ?case
    using Cons.IH [of "s\<lparr>world := w', sent := sent s @ [q]\<rparr>"]
    by (simp del: mapE.simps add: mapE_Cons_Inr)
qed

text \<open>An operation that sends at most one request from each state, and only requests
  in \<open>A\<close>, sends at most one per element over a list, all in \<open>A\<close>.\<close>

lemma mapE_sent_bound:
  assumes "\<And>x s. x \<in> set xs \<Longrightarrow>
             \<exists>new. sent (snd (f x s)) = sent s @ new \<and> length new \<le> 1 \<and> set new \<subseteq> A"
  shows "\<exists>new. sent (snd (mapE f xs s)) = sent s @ new \<and> length new \<le> length xs \<and> set new \<subseteq> A"
  using assms
proof (induction xs arbitrary: s)
  case Nil
  then show ?case by (simp add: exec_simps)
next
  case (Cons x xs)
  obtain r s1 where fx: "f x s = (r, s1)"
    by fastforce
  obtain new1 where n1: "sent s1 = sent s @ new1" "length new1 \<le> 1" "set new1 \<subseteq> A"
    using Cons.prems [of x s] fx by auto
  show ?case
  proof (cases r)
    case (Inl e)
    with fx n1 show ?thesis
      by (intro exI [of _ new1]) (simp del: mapE.simps add: mapE_Cons_Inl)
  next
    case (Inr y)
    obtain new2 where n2: "sent (snd (mapE f xs s1)) = sent s1 @ new2"
        "length new2 \<le> length xs" "set new2 \<subseteq> A"
      using Cons.IH [of s1] Cons.prems by auto
    with Inr fx n1 show ?thesis
      by (intro exI [of _ "new1 @ new2"]) (simp del: mapE.simps add: mapE_Cons_Inr)
  qed
qed

end
