(* ===== verification/Receiptli.thy ===== *)
theory Receiptli
  imports Host Descriptions
begin

text \<open>
  The node's \<open>execute\<close> method (\<open>src/nodes/Receiptli/Receiptli.node.ts\<close>, lines 57--102).
  \<open>prepare_request\<close> is the part of the loop body before the HTTP call (lines 65--97):
  the three \<open>getNodeParameter\<close> reads, the binary-property check with its \<open>throw\<close>,
  the \<open>getBinaryDataBuffer\<close> read and the request options; it changes nothing, so it is a
  sum-valued function. \<open>item_step\<close> adds the awaited \<open>helpers.request\<close> call;
  \<open>execute_loop\<close> is the \<open>for\<close> loop over the item index with its \<open>returnData\<close>
  accumulator, a \<open>function\<close> whose termination measure is \<open>length items - i\<close>;
  \<open>execute\<close> reads the credentials once and wraps the results in one output branch.
  The property lookup \<open>items[i].binary![name]\<close> follows JavaScript: a plain object also
  answers for the members it inherits from \<open>Object.prototype\<close> (\<open>js_get_binary\<close>).
  The lemmas show the loop equal to the reference \<open>mapE\<close> over the item indices
  (\<open>execute_loop_refines\<close>), and from it what \<open>execute\<close> returns and sends on every
  path.
\<close>

subsection \<open>Reading the binary property\<close>

definition object_prototype_members :: "string list" where
  "object_prototype_members =
     [''constructor'', ''__proto__'', ''__defineGetter__'', ''__defineSetter__'',
      ''__lookupGetter__'', ''__lookupSetter__'', ''hasOwnProperty'', ''isPrototypeOf'',
      ''propertyIsEnumerable'', ''toLocaleString'', ''toString'', ''valueOf'']"

datatype binary_entry = OwnEntry binary_data | InheritedMember string

definition js_get_binary :: "(string \<rightharpoonup> binary_data) \<Rightarrow> string \<Rightarrow> binary_entry option" where
  "js_get_binary obj k =
     (case obj k of
        Some b \<Rightarrow> Some (OwnEntry b)
      | None \<Rightarrow> (if k \<in> set object_prototype_members then Some (InheritedMember k) else None))"

fun entry_fileName :: "binary_entry \<Rightarrow> string option" where
  "entry_fileName (OwnEntry b) = bin_fileName b"
| "entry_fileName (InheritedMember _) = None"

fun entry_mimeType :: "binary_entry \<Rightarrow> string option" where
  "entry_mimeType (OwnEntry b) = Some (bin_mimeType b)"
| "entry_mimeType (InheritedMember _) = None"

definition no_binary_message :: "string \<Rightarrow> string" where
  "no_binary_message p =
     ''No binary data found on property '' @ [CHR 0x22] @ p @ [CHR 0x22] @
     ''. Ensure previous node provides a file.''"

subsection \<open>The request\<close>

definition extract_text_url :: "string option \<Rightarrow> string" where
  "extract_text_url baseUrl = js_template baseUrl @ ''/api/v1/extract-text''"

definition bearer :: "string option \<Rightarrow> string" where
  "bearer apiKey = ''Bearer '' @ js_template apiKey"

definition build_request ::
  "string option \<Rightarrow> string option \<Rightarrow> binary_entry \<Rightarrow> bytes \<Rightarrow> string \<Rightarrow> string \<Rightarrow> request" where
  "build_request baseUrl apiKey binaryData fileBuffer schema language =
     \<lparr>req_method = ''POST'',
      req_url = extract_text_url baseUrl,
      req_headers = [(''Authorization'', bearer apiKey)],
      req_formData =
        \<lparr>form_file =
           \<lparr>file_value = fileBuffer,
            file_filename = js_or (entry_fileName binaryData) ''document.pdf'',
            file_contentType = js_or (entry_mimeType binaryData) ''application/pdf''\<rparr>,
         form_schema = schema,
         form_language = language\<rparr>,
      req_json = True,
      req_timeout = 3600000\<rparr>"

subsection \<open>The loop body and the loop\<close>

definition prepare_request ::
  "('w, 'j) host \<Rightarrow> input_item list \<Rightarrow> string option \<Rightarrow> string option \<Rightarrow> nat \<Rightarrow> node_error + request" where
  "prepare_request h items baseUrl apiKey i =
     (case get_node_parameter h ''binaryPropertyName'' i of Inl e \<Rightarrow> Inl e | Inr binaryPropertyName \<Rightarrow>
      case get_node_parameter h ''schema'' i of Inl e \<Rightarrow> Inl e | Inr schema \<Rightarrow>
      case get_node_parameter h ''language'' i of Inl e \<Rightarrow> Inl e | Inr language \<Rightarrow>
      case item_binary (items ! i) of
        None \<Rightarrow> Inl (NodeError (no_binary_message binaryPropertyName))
      | Some binary \<Rightarrow>
      case js_get_binary binary binaryPropertyName of
        None \<Rightarrow> Inl (NodeError (no_binary_message binaryPropertyName))
      | Some binaryData \<Rightarrow>
      case get_binary_data_buffer h i binaryPropertyName of Inl e \<Rightarrow> Inl e | Inr fileBuffer \<Rightarrow>
      Inr (build_request baseUrl apiKey binaryData fileBuffer schema language))"

definition item_step ::
  "('w, 'j) host \<Rightarrow> input_item list \<Rightarrow> string option \<Rightarrow> string option \<Rightarrow> nat \<Rightarrow> ('w, 'j) node_exec" where
  "item_step h items baseUrl apiKey i =
     bindE (liftE (prepare_request h items baseUrl apiKey i)) (http_request h)"

function execute_loop ::
  "('w, 'j) host \<Rightarrow> input_item list \<Rightarrow> string option \<Rightarrow> string option \<Rightarrow> nat \<Rightarrow>
   'j output_item list \<Rightarrow> ('w, 'j output_item list) node_exec" where
  "execute_loop h items baseUrl apiKey i returnData =
     (if i < length items then
        bindE (item_step h items baseUrl apiKey i) (\<lambda>response.
          execute_loop h items baseUrl apiKey (Suc i) (returnData @ [\<lparr>json = response\<rparr>]))
      else ret returnData)"
  by pat_completeness auto
termination
  by (relation "measure (\<lambda>(h, items, baseUrl, apiKey, i, returnData). length items - i)") auto

declare execute_loop.simps [simp del]

definition execute :: "('w, 'j) host \<Rightarrow> ('w, 'j output_item list list) node_exec" where
  "execute h =
     (let items = input_data h in
      bindE (liftE (get_credentials h ''ReceiptliApi'')) (\<lambda>credentials.
        let baseUrl = credentials ''baseUrl'';
            apiKey = credentials ''apiKey''
        in bindE (execute_loop h items baseUrl apiKey 0 []) (\<lambda>returnData. ret [returnData])))"

subsection \<open>What a conforming request is\<close>

text \<open>Every request the node builds goes to the extraction endpoint of the configured base
  URL, carries the bearer token of the configured key, asks for JSON with the one-hour
  timeout, and names a file and a content type.\<close>

definition request_conforms :: "string option \<Rightarrow> string option \<Rightarrow> request \<Rightarrow> bool" where
  "request_conforms b k q \<longleftrightarrow>
     req_method q = ''POST'' \<and> req_url q = extract_text_url b \<and>
     req_headers q = [(''Authorization'', bearer k)] \<and> req_json q \<and> req_timeout q = 3600000 \<and>
     file_filename (form_file (req_formData q)) \<noteq> [] \<and>
     file_contentType (form_file (req_formData q)) \<noteq> []"

subsection \<open>Reference form of the loop\<close>

definition wrap_output :: "'j list \<Rightarrow> 'j output_item list" where
  "wrap_output rs = map (\<lambda>r. \<lparr>json = r\<rparr>) rs"

definition execute_spec :: "('w, 'j) host \<Rightarrow> ('w, 'j output_item list list) node_exec" where
  "execute_spec h =
     bindE (liftE (get_credentials h ''ReceiptliApi'')) (\<lambda>c.
       mapR (\<lambda>rs. [wrap_output rs])
         (mapE (item_step h (input_data h) (c ''baseUrl'') (c ''apiKey'')) [0..<length (input_data h)]))"

lemma execute_loop_refines:
  "execute_loop h items b k i acc =
     mapR (\<lambda>rs. acc @ wrap_output rs) (mapE (item_step h items b k) [i..<length items])"
proof (induction h items b k i acc rule: execute_loop.induct)
  case (1 h items b k i acc)
  show ?case
  proof (cases "i < length items")
    case True
    then have "[i..<length items] = i # [Suc i..<length items]"
      by (simp add: upt_conv_Cons)
    with True "1.IH" show ?thesis
      by (simp add: execute_loop.simps [of h items b k i acc] mapR_def wrap_output_def)
  next
    case False
    then show ?thesis
      by (simp add: execute_loop.simps [of h items b k i acc] mapR_def wrap_output_def)
  qed
qed

lemma execute_eq_spec: "execute h = execute_spec h"
  unfolding execute_def execute_spec_def Let_def execute_loop_refines mapR_def
  by simp

lemma execute_refines_apply:
  "execute h s =
     (case get_credentials h ''ReceiptliApi'' of
        Inl e \<Rightarrow> (Inl e, s)
      | Inr c \<Rightarrow> mapR (\<lambda>rs. [wrap_output rs])
                 (mapE (item_step h (input_data h) (c ''baseUrl'') (c ''apiKey''))
                   [0..<length (input_data h)]) s)"
  by (simp add: execute_eq_spec execute_spec_def exec_simps split: sum.splits)

subsection \<open>One item\<close>

lemma item_step_Inl:
  "prepare_request h items b k i = Inl e \<Longrightarrow> item_step h items b k i s = (Inl e, s)"
  by (simp add: item_step_def exec_simps)

lemma item_step_Inr:
  "prepare_request h items b k i = Inr q \<Longrightarrow> item_step h items b k i = http_request h q"
  by (simp add: item_step_def)

lemma prepare_request_Inr:
  "prepare_request h items b k i = Inr q \<Longrightarrow>
   \<exists>entry buf schema lang. q = build_request b k entry buf schema lang"
  by (auto simp: prepare_request_def split: sum.splits option.splits)

lemma build_request_conforms:
  "request_conforms b k (build_request b k entry buf schema lang)"
  by (simp add: request_conforms_def build_request_def js_or_nonempty)

lemma item_step_sent:
  "\<exists>new. sent (snd (item_step h items b k i s)) = sent s @ new \<and> length new \<le> 1 \<and>
         set new \<subseteq> {q. request_conforms b k q}"
proof (cases "prepare_request h items b k i")
  case (Inl e)
  then show ?thesis by (simp add: item_step_Inl)
next
  case (Inr q)
  then show ?thesis
    using prepare_request_Inr [OF Inr] build_request_conforms
    by (auto simp: item_step_Inr http_request_apply)
qed

lemma mapE_item_step_prepared:
  "map (prepare_request h items b k) is = map Inr qs \<Longrightarrow>
   mapE (item_step h items b k) is = mapE (http_request h) qs"
proof (induction "is" arbitrary: qs)
  case Nil
  then show ?case by simp
next
  case (Cons i "is")
  then obtain q qs' where "qs = q # qs'" and "prepare_request h items b k i = Inr q"
      and "map (prepare_request h items b k) is = map Inr qs'"
    by (cases qs) auto
  with Cons.IH show ?case
    by (simp add: item_step_Inr)
qed

text \<open>The loop over items whose preparation fails first at item \<open>m\<close>: the requests of
  the items before \<open>m\<close> are served, and then the run stops, with the remote's error if one
  of them failed and with the preparation error of item \<open>m\<close> otherwise.\<close>

lemma mapE_item_step_first_failure:
  assumes pre: "map (prepare_request h items b k) [0..<m] = map Inr qs"
    and m: "m < length items" and fail: "prepare_request h items b k m = Inl e"
  shows "mapE (item_step h items b k) [0..<length items] s =
           (case mapE (http_request h) qs s of
              (Inl e', s') \<Rightarrow> (Inl e', s')
            | (Inr _, s') \<Rightarrow> (Inl e, s'))"
proof -
  have split: "[0..<length items] = [0..<m] @ m # [Suc m..<length items]"
  proof -
    have "[0..<length items] = [0..<m] @ [m..<length items]"
      using upt_add_eq_append [of 0 m "length items - m"] m by simp
    then show ?thesis
      using m by (simp add: upt_conv_Cons)
  qed
  have "mapE (item_step h items b k) (m # [Suc m..<length items]) s' = (Inl e, s')" for s'
    using fail by (simp del: mapE.simps add: mapE_Cons_Inl item_step_Inl)
  then show ?thesis
    using mapE_item_step_prepared [OF pre]
    by (simp add: split mapE_append exec_simps del: mapE.simps split: prod.splits sum.splits)
qed

lemma prepare_missing_binary:
  assumes "node_parameter h ''binaryPropertyName'' i = Some p"
    and "node_parameter h ''schema'' i = Some sc" and "node_parameter h ''language'' i = Some l"
    and "case item_binary (items ! i) of None \<Rightarrow> True | Some bin \<Rightarrow> js_get_binary bin p = None"
  shows "prepare_request h items b k i = Inl (NodeError (no_binary_message p))"
  using assms
  by (auto simp: prepare_request_def get_node_parameter_def split: option.splits)

lemma no_binary_message_names_property: "sublist p (no_binary_message p)"
  unfolding no_binary_message_def
  by (metis append_assoc sublist_appendI)

lemma prepared_length:
  "map (prepare_request h items b k) [0..<m] = map Inr qs \<Longrightarrow> length qs = m"
  by (metis length_map length_upt minus_nat.diff_0)

lemma serve_total:
  assumes "\<forall>w q. \<not> isl (fst (remote h w q))"
  shows "\<exists>rs. fst (serve h qs w) = Inr rs \<and> length rs = length qs"
  unfolding serve_def by (rule mapE_total) (use assms in auto)

lemma prepare_request_Inr_language:
  "prepare_request h items b k i = Inr q \<Longrightarrow>
   node_parameter h ''language'' i = Some (form_language (req_formData q))"
  by (auto simp: prepare_request_def get_node_parameter_def build_request_def
      split: sum.splits option.splits)

lemma item_step_sent_prepared:
  "\<exists>new. sent (snd (item_step h items b k i s)) = sent s @ new \<and> length new \<le> 1 \<and>
         set new \<subseteq> {q. \<exists>j. prepare_request h items b k j = Inr q}"
  by (cases "prepare_request h items b k i")
     (auto simp: item_step_Inl item_step_Inr http_request_apply)

lemma execute_sent_prepared:
  "\<exists>new. sent (snd (execute h s)) = sent s @ new \<and>
         (\<forall>q \<in> set new. \<exists>c j. prepare_request h (input_data h) (c ''baseUrl'') (c ''apiKey'') j = Inr q)"
proof (cases "get_credentials h ''ReceiptliApi''")
  case (Inl e)
  then show ?thesis by (simp add: execute_refines_apply)
next
  case (Inr c)
  obtain new where "sent (snd (mapE (item_step h (input_data h) (c ''baseUrl'') (c ''apiKey''))
                     [0..<length (input_data h)] s)) = sent s @ new"
      and "set new \<subseteq> {q. \<exists>j. prepare_request h (input_data h) (c ''baseUrl'') (c ''apiKey'') j = Inr q}"
    using mapE_sent_bound [of "[0..<length (input_data h)]"
            "item_step h (input_data h) (c ''baseUrl'') (c ''apiKey'')" _ s]
          item_step_sent_prepared by blast
  with Inr show ?thesis
    by (fastforce simp: execute_refines_apply mapR_apply)
qed

lemma execute_sent_conforming:
  assumes "get_credentials h ''ReceiptliApi'' = Inr c"
  shows "\<exists>new. sent (snd (execute h s)) = sent s @ new \<and> length new \<le> length (input_data h) \<and>
              (\<forall>q \<in> set new. request_conforms (c ''baseUrl'') (c ''apiKey'') q)"
proof -
  obtain new where "sent (snd (mapE (item_step h (input_data h) (c ''baseUrl'') (c ''apiKey''))
                     [0..<length (input_data h)] s)) = sent s @ new"
      and "length new \<le> length [0..<length (input_data h)]"
      and "set new \<subseteq> {q. request_conforms (c ''baseUrl'') (c ''apiKey'') q}"
    using mapE_sent_bound [of "[0..<length (input_data h)]"
            "item_step h (input_data h) (c ''baseUrl'') (c ''apiKey'')"
            "{q. request_conforms (c ''baseUrl'') (c ''apiKey'') q}" s]
          item_step_sent by blast
  then show ?thesis
    using assms by (auto simp: execute_refines_apply mapR_apply)
qed

subsection \<open>Properties of \<open>execute\<close>\<close>

text \<open>C1: when every item's request can be prepared, \<open>execute\<close> is exactly the remote
  service answering those requests in item order: its result is the list of responses
  wrapped as \<open>{json: response}\<close> in one output branch, or the first remote failure; the
  remote ends in the state serving them leaves it in; and the requests sent are a prefix of
  the prepared ones, in order.\<close>

theorem execute_serves_prepared_requests:
  assumes cred: "get_credentials h ''ReceiptliApi'' = Inr c"
    and prep: "map (prepare_request h (input_data h) (c ''baseUrl'') (c ''apiKey''))
                 [0..<length (input_data h)] = map Inr qs"
  shows "fst (execute h s) = map_sum RequestError (\<lambda>rs. [wrap_output rs]) (fst (serve h qs (world s))) \<and>
         world (snd (execute h s)) = snd (serve h qs (world s)) \<and>
         (\<exists>j \<le> length qs. sent (snd (execute h s)) = sent s @ take j qs)"
proof -
  have run: "execute h s = mapR (\<lambda>rs. [wrap_output rs]) (mapE (http_request h) qs) s"
    using cred mapE_item_step_prepared [OF prep] by (simp add: execute_refines_apply)
  show ?thesis
    using mapE_http_request [of h qs s] mapE_http_request_sent [of qs h s]
    by (simp add: run mapR_apply sum.map_comp comp_def)
qed

text \<open>C2: against a remote service that always answers, \<open>execute\<close> returns one output
  branch holding exactly one item per input item, the \<open>i\<close>-th being the response to the
  request prepared for input \<open>i\<close>, and it sends every prepared request once, in input
  order.\<close>

theorem execute_one_result_per_item:
  assumes cred: "get_credentials h ''ReceiptliApi'' = Inr c"
    and prep: "map (prepare_request h (input_data h) (c ''baseUrl'') (c ''apiKey''))
                 [0..<length (input_data h)] = map Inr qs"
    and total: "\<forall>w q. \<not> isl (fst (remote h w q))"
  shows "\<exists>rs. fst (serve h qs (world s)) = Inr rs \<and> fst (execute h s) = Inr [wrap_output rs] \<and>
              length rs = length (input_data h) \<and> sent (snd (execute h s)) = sent s @ qs"
proof -
  have run: "execute h s = mapR (\<lambda>rs. [wrap_output rs]) (mapE (http_request h) qs) s"
    using cred mapE_item_step_prepared [OF prep] by (simp add: execute_refines_apply)
  obtain rs where rs: "fst (serve h qs (world s)) = Inr rs" "length rs = length qs"
    using serve_total [OF total] by blast
  have "sent (snd (mapE (http_request h) qs s)) = sent s @ qs"
    using total by (intro mapE_http_request_total) auto
  then show ?thesis
    using rs mapE_http_request [of h qs s] prepared_length [OF prep]
    by (simp add: run mapR_apply)
qed

text \<open>C3: if the preparation of item \<open>m\<close> fails (a parameter read throws, the binary
  property is missing, or the buffer cannot be read), the whole execution fails and no
  request is sent for item \<open>m\<close> or any later item: what was sent is a prefix of the
  requests of the items before \<open>m\<close>.\<close>

theorem execute_stops_at_failed_item:
  assumes cred: "get_credentials h ''ReceiptliApi'' = Inr c"
    and m: "m < length (input_data h)"
    and prep: "map (prepare_request h (input_data h) (c ''baseUrl'') (c ''apiKey'')) [0..<m] = map Inr qs"
    and fail: "prepare_request h (input_data h) (c ''baseUrl'') (c ''apiKey'') m = Inl e"
  shows "isl (fst (execute h s)) \<and> (\<exists>j \<le> m. sent (snd (execute h s)) = sent s @ take j qs)"
proof -
  have run: "execute h s =
      (case mapE (http_request h) qs s of (Inl e', s') \<Rightarrow> (Inl e', s') | (Inr _, s') \<Rightarrow> (Inl e, s'))"
    using cred mapE_item_step_first_failure [OF prep m fail, of s]
    by (simp add: execute_refines_apply mapR_apply split: prod.splits sum.splits)
  have "snd (execute h s) = snd (mapE (http_request h) qs s)" and "isl (fst (execute h s))"
    using run by (auto split: prod.splits sum.splits)
  then show ?thesis
    using mapE_http_request_sent [of qs h s] prepared_length [OF prep] by auto
qed

text \<open>C4: an item that lacks the configured binary property stops the batch with the
  node's own error, whose message names the property; with a remote that answers, every
  earlier item's request has been sent and none for this item or later ones.\<close>

theorem execute_missing_binary:
  assumes cred: "get_credentials h ''ReceiptliApi'' = Inr c"
    and m: "m < length (input_data h)"
    and prep: "map (prepare_request h (input_data h) (c ''baseUrl'') (c ''apiKey'')) [0..<m] = map Inr qs"
    and total: "\<forall>w q. \<not> isl (fst (remote h w q))"
    and params: "node_parameter h ''binaryPropertyName'' m = Some p"
      "node_parameter h ''schema'' m = Some sc" "node_parameter h ''language'' m = Some l"
    and missing: "case item_binary (input_data h ! m) of None \<Rightarrow> True | Some bin \<Rightarrow> js_get_binary bin p = None"
  shows "fst (execute h s) = Inl (NodeError (no_binary_message p)) \<and>
         world (snd (execute h s)) = snd (serve h qs (world s)) \<and>
         sent (snd (execute h s)) = sent s @ qs"
proof -
  have fail: "prepare_request h (input_data h) (c ''baseUrl'') (c ''apiKey'') m =
                Inl (NodeError (no_binary_message p))"
    using prepare_missing_binary [OF params missing] .
  obtain rs where rs: "fst (serve h qs (world s)) = Inr rs"
    using serve_total [OF total] by blast
  have srv: "fst (mapE (http_request h) qs s) = Inr rs"
    "world (snd (mapE (http_request h) qs s)) = snd (serve h qs (world s))"
    using mapE_http_request [of h qs s] rs by simp_all
  have snt: "sent (snd (mapE (http_request h) qs s)) = sent s @ qs"
    using total by (intro mapE_http_request_total) auto
  have "execute h s = (Inl (NodeError (no_binary_message p)), snd (mapE (http_request h) qs s))"
    using cred mapE_item_step_first_failure [OF prep m fail, of s] srv
    by (simp add: execute_refines_apply mapR_apply split: prod.splits sum.splits)
  then show ?thesis
    using srv snt by simp
qed

text \<open>C5: on every run, whatever the host and the remote do, the node sends at most one
  request per input item, and every request it sends is a \<open>POST\<close> to
  \<open>{baseUrl}/api/v1/extract-text\<close> with header \<open>Authorization: Bearer {apiKey}\<close> of the
  injected credential, asks for JSON, carries the one-hour timeout and names a non-empty
  file name and content type.\<close>

theorem execute_sent_requests_conform:
  assumes "get_credentials h ''ReceiptliApi'' = Inr c"
  shows "\<exists>new. sent (snd (execute h s)) = sent s @ new \<and> length new \<le> length (input_data h) \<and>
              (\<forall>q \<in> set new. request_conforms (c ''baseUrl'') (c ''apiKey'') q)"
  using assms by (rule execute_sent_conforming)

text \<open>C6: the \<open>for\<close> loop with its \<open>returnData\<close> accumulator computes the reference
  definition: read the credentials, run the loop body over the item indices
  \<open>0, \<dots>, n-1\<close> in order, stopping at the first error, and return the wrapped responses
  as the single output branch.\<close>

theorem execute_refines: "execute h = execute_spec h"
  unfolding execute_def execute_spec_def Let_def execute_loop_refines mapR_def
  by simp

text \<open>C7: when the host holds no \<open>ReceiptliApi\<close> credential, \<open>execute\<close> fails with that
  rejection before reading any item: the state is unchanged and nothing is sent.\<close>

theorem execute_credentials_missing:
  "credentials_of h ''ReceiptliApi'' = None \<Longrightarrow>
   execute h s = (Inl (CredentialsError ''ReceiptliApi''), s)"
  by (simp add: execute_refines_apply get_credentials_def)

text \<open>C8: there is no partial output: a successful execution returns exactly one output
  branch with exactly one item per input item.\<close>

theorem execute_no_partial_output:
  assumes "fst (execute h s) = Inr out"
  shows "\<exists>rs. out = [wrap_output rs] \<and> length rs = length (input_data h)"
proof (cases "get_credentials h ''ReceiptliApi''")
  case (Inl e)
  with assms show ?thesis by (simp add: execute_refines_apply)
next
  case (Inr c)
  let ?m = "mapE (item_step h (input_data h) (c ''baseUrl'') (c ''apiKey'')) [0..<length (input_data h)] s"
  from Inr assms obtain rs where "fst ?m = Inr rs" and "out = [wrap_output rs]"
    by (cases "fst ?m") (auto simp: execute_refines_apply mapR_apply)
  then show ?thesis
    using mapE_Inr_length by fastforce
qed

text \<open>C9: the URL is the base URL followed by \<open>/api/v1/extract-text\<close>; it contains a
  doubled slash exactly when the base URL already does or ends in a slash, so a base URL
  without a trailing slash yields no new \<open>//\<close>, and one with a trailing slash does.\<close>

theorem extract_text_url_double_slash:
  "sublist ''//'' (extract_text_url (Some b)) \<longleftrightarrow> sublist ''//'' b \<or> suffix ''/'' b"
proof -
  let ?p = "''/api/v1/extract-text''"
  have path: "\<not> sublist ''//'' ?p"
    by (simp add: sublist_code)
  have splits: "''//'' = xs1 @ xs2 \<longleftrightarrow>
      (xs1 = [] \<and> xs2 = ''//'') \<or> (xs1 = ''/'' \<and> xs2 = ''/'') \<or> (xs1 = ''//'' \<and> xs2 = [])"
    for xs1 xs2 :: string
    by (cases xs1; cases xs2) (auto simp: Cons_eq_append_conv append_eq_Cons_conv)
  have join: "(\<exists>xs1 xs2. ''//'' = xs1 @ xs2 \<and> suffix xs1 b \<and> prefix xs2 ?p) \<longleftrightarrow>
      suffix ''/'' b \<or> suffix ''//'' b"
  proof
    assume "\<exists>xs1 xs2. ''//'' = xs1 @ xs2 \<and> suffix xs1 b \<and> prefix xs2 ?p"
    then show "suffix ''/'' b \<or> suffix ''//'' b"
      unfolding splits by auto
  next
    assume "suffix ''/'' b \<or> suffix ''//'' b"
    then show "\<exists>xs1 xs2. ''//'' = xs1 @ xs2 \<and> suffix xs1 b \<and> prefix xs2 ?p"
    proof
      assume "suffix ''/'' b"
      then show ?thesis by (intro exI [of _ "''/''"] exI [of _ "''/''"]) simp
    next
      assume "suffix ''//'' b"
      then show ?thesis by (intro exI [of _ "''//''"] exI [of _ "[]"]) simp
    qed
  qed
  show ?thesis
    unfolding extract_text_url_def js_template.simps sublist_append join
    using path by auto
qed

end
