(* ===== verification/Loop_Machine.thy ===== *)
theory Loop_Machine
  imports Receiptli
begin

text \<open>
  A small-step semantics of the \<open>for\<close> loop of \<open>execute\<close>
  (\<open>src/nodes/Receiptli/Receiptli.node.ts\<close>, lines 64--100). A configuration is the
  loop's state, the index \<open>i\<close>, the accumulator \<open>returnData\<close> and the run state, or the
  loop's end: it returned \<open>returnData\<close>, or the body threw. \<open>loop_step\<close> has one rule per
  way an iteration can go: the guard \<open>i < items.length\<close> fails and the loop exits; the
  body completes and its response is pushed; the body throws. \<open>loop_next\<close> is the same
  step as an executable function.
  The lemmas show the relation equal to its executable step, terminating within
  \<open>length items - i + 1\<close> steps, and an invariant of every reachable configuration:
  one output item and one request sent for every iteration completed, every request
  conforming.
\<close>

datatype ('w, 'j) conf =
    Loop nat "'j output_item list" "'w run_state"
  | Returned "'j output_item list" "'w run_state"
  | Thrown node_error "'w run_state"

inductive loop_step ::
  "('w, 'j) host \<Rightarrow> input_item list \<Rightarrow> string option \<Rightarrow> string option \<Rightarrow>
   ('w, 'j) conf \<Rightarrow> ('w, 'j) conf \<Rightarrow> bool"
  for h items baseUrl apiKey where
  loop_exit: "\<not> i < length items \<Longrightarrow>
    loop_step h items baseUrl apiKey (Loop i returnData s) (Returned returnData s)"
| loop_push: "i < length items \<Longrightarrow> item_step h items baseUrl apiKey i s = (Inr response, s') \<Longrightarrow>
    loop_step h items baseUrl apiKey (Loop i returnData s)
      (Loop (Suc i) (returnData @ [\<lparr>json = response\<rparr>]) s')"
| loop_throw: "i < length items \<Longrightarrow> item_step h items baseUrl apiKey i s = (Inl e, s') \<Longrightarrow>
    loop_step h items baseUrl apiKey (Loop i returnData s) (Thrown e s')"

fun loop_next ::
  "('w, 'j) host \<Rightarrow> input_item list \<Rightarrow> string option \<Rightarrow> string option \<Rightarrow>
   ('w, 'j) conf \<Rightarrow> ('w, 'j) conf option" where
  "loop_next h items baseUrl apiKey (Loop i returnData s) =
     Some (if i < length items then
             (case item_step h items baseUrl apiKey i s of
                (Inl e, s') \<Rightarrow> Thrown e s'
              | (Inr response, s') \<Rightarrow> Loop (Suc i) (returnData @ [\<lparr>json = response\<rparr>]) s')
           else Returned returnData s)"
| "loop_next h items baseUrl apiKey (Returned returnData s) = None"
| "loop_next h items baseUrl apiKey (Thrown e s) = None"

fun final_conf :: "('w, 'j) conf \<Rightarrow> bool" where
  "final_conf (Loop i returnData s) = False"
| "final_conf (Returned returnData s) = True"
| "final_conf (Thrown e s) = True"

text \<open>What holds of every configuration reached from \<open>Loop 0 [] s0\<close>: the accumulator
  has one item per completed iteration, one request left per completed iteration (and at
  most one more in a failing one), and every request sent conforms.\<close>

fun loop_inv ::
  "input_item list \<Rightarrow> string option \<Rightarrow> string option \<Rightarrow> 'w run_state \<Rightarrow> ('w, 'j) conf \<Rightarrow> bool" where
  "loop_inv items b k s0 (Loop i returnData s) \<longleftrightarrow>
     i \<le> length items \<and> length returnData = i \<and>
     (\<exists>new. sent s = sent s0 @ new \<and> length new = i \<and> list_all (request_conforms b k) new)"
| "loop_inv items b k s0 (Returned returnData s) \<longleftrightarrow>
     length returnData = length items \<and>
     (\<exists>new. sent s = sent s0 @ new \<and> length new = length items \<and> list_all (request_conforms b k) new)"
| "loop_inv items b k s0 (Thrown e s) \<longleftrightarrow>
     (\<exists>new. sent s = sent s0 @ new \<and> length new \<le> length items \<and> list_all (request_conforms b k) new)"

inductive_cases loop_step_LoopE: "loop_step h items b k (Loop i returnData s) c"
inductive_cases loop_step_ReturnedE [elim!]: "loop_step h items b k (Returned returnData s) c"
inductive_cases loop_step_ThrownE [elim!]: "loop_step h items b k (Thrown e s) c"

subsection \<open>The relation and the function\<close>

lemma loop_step_iff_next:
  "loop_step h items b k c c' \<longleftrightarrow> loop_next h items b k c = Some c'"
proof
  assume "loop_step h items b k c c'"
  then show "loop_next h items b k c = Some c'"
    by (induction rule: loop_step.induct) simp_all
next
  assume nxt: "loop_next h items b k c = Some c'"
  show "loop_step h items b k c c'"
  proof (cases c)
    case (Loop i returnData s)
    show ?thesis
    proof (cases "i < length items")
      case True
      obtain r s' where st: "item_step h items b k i s = (r, s')"
        by fastforce
      with True nxt Loop show ?thesis
        by (cases r) (auto intro: loop_step.intros)
    next
      case False
      with nxt Loop show ?thesis
        by (auto intro: loop_step.intros)
    qed
  qed (use nxt in simp_all)
qed

subsection \<open>The invariant\<close>

lemma item_step_Inr_sent:
  "item_step h items b k i s = (Inr r, s') \<Longrightarrow> \<exists>q. sent s' = sent s @ [q] \<and> request_conforms b k q"
proof (cases "prepare_request h items b k i")
  case (Inl e)
  then show "item_step h items b k i s = (Inr r, s') \<Longrightarrow> ?thesis"
    by (simp add: item_step_Inl)
next
  case (Inr q)
  assume "item_step h items b k i s = (Inr r, s')"
  then have "snd (http_request h q s) = s'"
    using Inr by (simp add: item_step_Inr)
  then have "sent s' = sent s @ [q]"
    by (auto simp: http_request_apply)
  then show ?thesis
    using prepare_request_Inr [OF Inr] build_request_conforms by blast
qed

lemma item_step_sent_conforms:
  "item_step h items b k i s = (r, s') \<Longrightarrow>
   \<exists>new. sent s' = sent s @ new \<and> length new \<le> 1 \<and> list_all (request_conforms b k) new"
  using item_step_sent [of h items b k i s] by (auto simp: list_all_iff)

lemma loop_step_inv:
  "loop_step h items b k c c' \<Longrightarrow> loop_inv items b k s0 c \<Longrightarrow> loop_inv items b k s0 c'"
proof (induction rule: loop_step.induct)
  case (loop_exit i returnData s)
  then show ?case by auto
next
  case (loop_push i s response s' returnData)
  obtain q where q: "sent s' = sent s @ [q]" "request_conforms b k q"
    using item_step_Inr_sent [OF loop_push.hyps(2)] by blast
  from loop_push.prems obtain new where inv:
      "i \<le> length items" "length returnData = i" "sent s = sent s0 @ new" "length new = i"
      "list_all (request_conforms b k) new"
    by auto
  have "sent s' = sent s0 @ (new @ [q])" "length (new @ [q]) = Suc i"
    "list_all (request_conforms b k) (new @ [q])"
    using q inv by simp_all
  then show ?case
    using loop_push.hyps(1) inv(2) by (simp only: loop_inv.simps) auto
next
  case (loop_throw i s e s' returnData)
  obtain new' where n': "sent s' = sent s @ new'" "length new' \<le> 1" "list_all (request_conforms b k) new'"
    using item_step_sent_conforms [OF loop_throw.hyps(2)] by blast
  from loop_throw.prems obtain new where inv:
      "sent s = sent s0 @ new" "length new = i" "list_all (request_conforms b k) new"
    by auto
  have "sent s' = sent s0 @ (new @ new')" "length (new @ new') \<le> length items"
    "list_all (request_conforms b k) (new @ new')"
    using n' inv loop_throw.hyps(1) by simp_all
  then show ?case
    by (simp only: loop_inv.simps) blast
qed

lemma loop_steps_inv:
  "(loop_step h items b k)\<^sup>*\<^sup>* c c' \<Longrightarrow> loop_inv items b k s0 c \<Longrightarrow> loop_inv items b k s0 c'"
proof (induction rule: rtranclp_induct)
  case base
  then show ?case .
next
  case (step y z)
  then show ?case
    using loop_step_inv by blast
qed

lemma loop_inv_start: "loop_inv items b k s0 (Loop 0 [] s0)"
  by simp

subsection \<open>Properties of the loop\<close>

text \<open>C14: in every configuration reachable from the loop's start \<open>Loop 0 [] s0\<close>,
  \<open>returnData\<close> holds one item per completed iteration and the index never passes the
  number of items. Exactly one request has been sent per completed iteration, and at most
  one more if an iteration threw. Every request sent conforms (endpoint, bearer header,
  JSON, one-hour timeout, file name and content type).\<close>

theorem loop_reachable_inv:
  "(loop_step h items b k)\<^sup>*\<^sup>* (Loop 0 [] s0) c \<Longrightarrow> loop_inv items b k s0 c"
  using loop_steps_inv loop_inv_start by blast

text \<open>C15: the loop terminates: from any index it reaches a final configuration (returned
  or thrown) within \<open>length items - i + 1\<close> steps.\<close>

theorem loop_terminates_within:
  "\<exists>c m. m \<le> length items - i + 1 \<and> (loop_step h items b k ^^ m) (Loop i acc s) c \<and> final_conf c"
proof (induction h items b k i acc arbitrary: s rule: execute_loop.induct)
  case (1 h items b k i acc)
  show ?case
  proof (cases "i < length items")
    case False
    then have "(loop_step h items b k ^^ 1) (Loop i acc s) (Returned acc s)"
      by (subst relpowp_1) (rule loop_exit)
    then show ?thesis by fastforce
  next
    case True
    obtain r s' where st: "item_step h items b k i s = (r, s')"
      by fastforce
    show ?thesis
    proof (cases r)
      case (Inl e)
      with st have st': "item_step h items b k i s = (Inl e, s')"
        by simp
      have "(loop_step h items b k ^^ 1) (Loop i acc s) (Thrown e s')"
        by (subst relpowp_1) (rule loop_throw [OF True st'])
      then show ?thesis by fastforce
    next
      case (Inr response)
      with True st have step: "loop_step h items b k (Loop i acc s) (Loop (Suc i) (acc @ [\<lparr>json = response\<rparr>]) s')"
        by (simp add: loop_push)
      obtain c m where "m \<le> length items - Suc i + 1"
          and "(loop_step h items b k ^^ m) (Loop (Suc i) (acc @ [\<lparr>json = response\<rparr>]) s') c"
          and "final_conf c"
        using "1.IH" [OF True] by blast
      then have "(loop_step h items b k ^^ Suc m) (Loop i acc s) c"
        using step by (blast intro: relpowp_Suc_I2)
      with \<open>m \<le> length items - Suc i + 1\<close> \<open>final_conf c\<close> True show ?thesis
        by (intro exI [of _ c] exI [of _ "Suc m"]) simp
    qed
  qed
qed

end
