(* ===== verification/Request_Format.thy ===== *)
theory Request_Format
  imports Receiptli
begin

text \<open>
  What the request carries when its inputs are unusual
  (\<open>src/nodes/Receiptli/Receiptli.node.ts\<close>, lines 61--62 and 78--97). The node reads
  \<open>baseUrl\<close> and \<open>apiKey\<close> from the credential with casts only, and uses them in
  template literals, where JavaScript writes a missing field as the text \<open>undefined\<close>
  (\<open>js_template\<close>). The attachment's file name and MIME type go through \<open>||\<close>, which
  replaces the empty string as well as a missing value (\<open>js_or\<close>). The lemmas show that
  a request depends on the credential fields only through their template text, and that
  no part of a run depends on the host's credential store beyond the credential that
  \<open>execute\<close> reads.
\<close>

lemma build_request_template:
  "js_template b = js_template b' \<Longrightarrow> js_template k = js_template k' \<Longrightarrow>
   build_request b k = build_request b' k'"
  by (simp add: fun_eq_iff build_request_def extract_text_url_def bearer_def)

lemma item_step_template:
  assumes "js_template b = js_template b'" and "js_template k = js_template k'"
  shows "item_step h items b k = item_step h items b' k'"
proof -
  have "prepare_request h items b k = prepare_request h items b' k'"
    unfolding prepare_request_def build_request_template [OF assms] ..
  then show ?thesis
    by (simp add: fun_eq_iff item_step_def)
qed

lemma item_step_credentials_update:
  "item_step (h\<lparr>credentials_of := cr\<rparr>) = item_step h"
proof -
  have "get_node_parameter (h\<lparr>credentials_of := cr\<rparr>) = get_node_parameter h"
    and "get_binary_data_buffer (h\<lparr>credentials_of := cr\<rparr>) = get_binary_data_buffer h"
    by (simp_all add: fun_eq_iff get_node_parameter_def get_binary_data_buffer_def)
  note eqs = this
  have "prepare_request (h\<lparr>credentials_of := cr\<rparr>) = prepare_request h"
    unfolding prepare_request_def eqs ..
  moreover have "http_request (h\<lparr>credentials_of := cr\<rparr>) = http_request h"
    by (simp add: fun_eq_iff http_request_def)
  ultimately show ?thesis
    unfolding item_step_def by metis
qed

subsection \<open>Credentials without a field\<close>

text \<open>C16: a stored credential without \<open>baseUrl\<close> and \<open>apiKey\<close> is not rejected: a
  run with it is exactly a run with both fields set to the text \<open>undefined\<close>, same
  result, same requests (to \<open>undefined/api/v1/extract-text\<close> with
  \<open>Bearer undefined\<close>), same final state.\<close>

theorem execute_undefined_credential_fields:
  assumes "credentials_of h ''ReceiptliApi'' = Some c"
    and "c ''baseUrl'' = None" and "c ''apiKey'' = None"
  shows "execute h =
           execute (h\<lparr>credentials_of := (credentials_of h)
             (''ReceiptliApi'' \<mapsto> c(''baseUrl'' \<mapsto> ''undefined'', ''apiKey'' \<mapsto> ''undefined''))\<rparr>)"
  (is "_ = execute ?h'")
proof -
  have eq: "item_step ?h' (input_data h) (Some ''undefined'') (Some ''undefined'') =
        item_step h (input_data h) (c ''baseUrl'') (c ''apiKey'')"
    using assms(2,3) item_step_template [of "Some ''undefined''" None "Some ''undefined''" None h]
    by (simp add: item_step_credentials_update)
  show ?thesis
    unfolding execute_eq_spec execute_spec_def
    using assms(1) by (simp add: get_credentials_def eq)
qed

subsection \<open>File options\<close>

text \<open>C18: the file part of a prepared request carries the attachment's bytes, its stored
  file name unless that is absent or empty (then \<open>document.pdf\<close>), and its MIME type
  unless that is empty (then \<open>application/pdf\<close>): the \<open>||\<close> of lines 88--89 replaces
  the empty string as well as \<open>undefined\<close>.\<close>

theorem prepared_file_options:
  assumes "prepare_request h items b k i = Inr q"
    and "get_node_parameter h ''binaryPropertyName'' i = Inr p"
    and "item_binary (items ! i) = Some obj" and "obj p = Some bin"
    and "get_binary_data_buffer h i p = Inr buf"
  shows "form_file (req_formData q) =
           \<lparr>file_value = buf,
            file_filename = (if bin_fileName bin = None \<or> bin_fileName bin = Some [] then ''document.pdf''
                             else the (bin_fileName bin)),
            file_contentType = (if bin_mimeType bin = [] then ''application/pdf'' else bin_mimeType bin)\<rparr>"
  using assms
  by (auto simp: prepare_request_def js_get_binary_def build_request_def js_or_eq split: sum.splits)

end
