(* ===== verification/Host_Trace.thy ===== *)
theory Host_Trace
  imports Receiptli
begin

text \<open>
  The calls \<open>execute\<close> makes on its host, in the order it makes them
  (\<open>src/nodes/Receiptli/Receiptli.node.ts\<close>, lines 57--102): \<open>getInputData\<close>, then
  \<open>getCredentials\<close>, then per item the three \<open>getNodeParameter\<close> reads, the binary
  check (which calls nothing), \<open>getBinaryDataBuffer\<close> and \<open>helpers.request\<close>, each
  call made only if every earlier one of the item succeeded. \<open>body_calls\<close> is the trace
  of one iteration, \<open>loop_calls\<close> of the loop and \<open>execute_calls\<close> of the method. The
  lemmas give the shape of the trace: the calls on each item are a prefix of the code's
  sequence, item after item, with only the last item cut short, and a buffer is read only
  after its item passed the binary check.
\<close>

datatype host_call =
    GetInputData
  | GetCredentials string
  | GetNodeParameter string nat
  | GetBinaryDataBuffer nat string
  | HelpersRequest request

definition body_calls ::
  "('w, 'j) host \<Rightarrow> input_item list \<Rightarrow> string option \<Rightarrow> string option \<Rightarrow> nat \<Rightarrow> host_call list" where
  "body_calls h items baseUrl apiKey i =
     GetNodeParameter ''binaryPropertyName'' i #
     (case get_node_parameter h ''binaryPropertyName'' i of Inl e \<Rightarrow> [] | Inr binaryPropertyName \<Rightarrow>
      GetNodeParameter ''schema'' i #
      (case get_node_parameter h ''schema'' i of Inl e \<Rightarrow> [] | Inr schema \<Rightarrow>
       GetNodeParameter ''language'' i #
       (case get_node_parameter h ''language'' i of Inl e \<Rightarrow> [] | Inr language \<Rightarrow>
        (case item_binary (items ! i) of None \<Rightarrow> [] | Some binary \<Rightarrow>
         case js_get_binary binary binaryPropertyName of None \<Rightarrow> [] | Some binaryData \<Rightarrow>
         GetBinaryDataBuffer i binaryPropertyName #
         (case get_binary_data_buffer h i binaryPropertyName of Inl e \<Rightarrow> [] | Inr fileBuffer \<Rightarrow>
          [HelpersRequest (build_request baseUrl apiKey binaryData fileBuffer schema language)])))))"

function loop_calls ::
  "('w, 'j) host \<Rightarrow> input_item list \<Rightarrow> string option \<Rightarrow> string option \<Rightarrow> nat \<Rightarrow> 'w run_state \<Rightarrow>
   host_call list" where
  "loop_calls h items baseUrl apiKey i s =
     (if i < length items then
        body_calls h items baseUrl apiKey i @
        (case item_step h items baseUrl apiKey i s of
           (Inl e, s') \<Rightarrow> []
         | (Inr response, s') \<Rightarrow> loop_calls h items baseUrl apiKey (Suc i) s')
      else [])"
  by pat_completeness auto
termination
  by (relation "measure (\<lambda>(h, items, baseUrl, apiKey, i, s). length items - i)") auto

declare loop_calls.simps [simp del]

definition execute_calls :: "('w, 'j) host \<Rightarrow> 'w run_state \<Rightarrow> host_call list" where
  "execute_calls h s =
     GetInputData # GetCredentials ''ReceiptliApi'' #
     (case get_credentials h ''ReceiptliApi'' of
        Inl e \<Rightarrow> []
      | Inr credentials \<Rightarrow>
          loop_calls h (input_data h) (credentials ''baseUrl'') (credentials ''apiKey'') 0 s)"

text \<open>The complete sequence of calls on item \<open>i\<close>, as the loop body writes them.\<close>

definition item_calls :: "nat \<Rightarrow> string \<Rightarrow> request \<Rightarrow> host_call list" where
  "item_calls i p q =
     [GetNodeParameter ''binaryPropertyName'' i, GetNodeParameter ''schema'' i,
      GetNodeParameter ''language'' i, GetBinaryDataBuffer i p, HelpersRequest q]"

lemma body_calls_prepared:
  "prepare_request h items b k i = Inr q \<Longrightarrow> \<exists>p. body_calls h items b k i = item_calls i p q"
  by (auto simp: body_calls_def prepare_request_def item_calls_def split: sum.splits option.splits)

lemma body_calls_prefix:
  "\<exists>p q. body_calls h items b k i \<noteq> [] \<and> prefix (body_calls h items b k i) (item_calls i p q)"
  by (auto simp: body_calls_def item_calls_def split: sum.splits option.splits)


lemma body_calls_shape:
  "\<exists>p q. body_calls h items b k i \<noteq> [] \<and> prefix (body_calls h items b k i) (item_calls i p q) \<and>
         ((\<exists>q'. prepare_request h items b k i = Inr q') \<longrightarrow> body_calls h items b k i = item_calls i p q)"
proof (cases "prepare_request h items b k i")
  case (Inl e)
  then show ?thesis using body_calls_prefix [of h items b k i] by auto
next
  case (Inr q)
  then obtain p where "body_calls h items b k i = item_calls i p q"
    using body_calls_prepared by blast
  then show ?thesis using Inr by (auto simp: item_calls_def)
qed

lemma body_calls_buffer_checked:
  assumes call: "GetBinaryDataBuffer j p \<in> set (body_calls h items b k i)"
  shows "\<exists>obj e. item_binary (items ! i) = Some obj \<and> js_get_binary obj p = Some e"
proof (cases "item_binary (items ! i)")
  case None
  with call show ?thesis by (simp add: body_calls_def split: sum.splits)
next
  case (Some obj)
  with call show ?thesis
    by (cases "js_get_binary obj p") (auto simp: body_calls_def split: sum.splits)
qed

lemma item_step_Inr_prepared:
  "item_step h items b k i s = (Inr y, s1) \<Longrightarrow> \<exists>q. prepare_request h items b k i = Inr q"
  by (cases "prepare_request h items b k i") (simp_all add: item_step_Inl)

lemma loop_calls_shape:
  "\<exists>j. j \<le> length items - i \<and>
       loop_calls h items b k i s = concat (map (body_calls h items b k) [i..<i + j]) \<and>
       (\<forall>m. i \<le> m \<longrightarrow> Suc m < i + j \<longrightarrow> (\<exists>q. prepare_request h items b k m = Inr q)) \<and>
       (\<not> isl (fst (mapE (item_step h items b k) [i..<length items] s)) \<longrightarrow>
          j = length items - i \<and> (\<forall>m. i \<le> m \<longrightarrow> m < length items \<longrightarrow> (\<exists>q. prepare_request h items b k m = Inr q)))"
proof (induction h items b k i s rule: loop_calls.induct)
  case (1 h items b k i s)
  show ?case
  proof (cases "i < length items")
    case False
    then show ?thesis by (intro exI [of _ 0]) (simp add: loop_calls.simps)
  next
    case True
    then have u: "[i..<length items] = i # [Suc i..<length items]"
      by (simp add: upt_conv_Cons)
    obtain r s1 where st: "item_step h items b k i s = (r, s1)"
      by fastforce
    show ?thesis
    proof (cases r)
      case (Inl e)
      then have "isl (fst (mapE (item_step h items b k) [i..<length items] s))"
        using st by (simp add: u mapE_Cons_Inl del: mapE.simps)
      then show ?thesis
        using True st Inl by (intro exI [of _ 1]) (simp add: loop_calls.simps)
    next
      case (Inr y)
      obtain j where j: "j \<le> length items - Suc i"
        and calls: "loop_calls h items b k (Suc i) s1 = concat (map (body_calls h items b k) [Suc i..<Suc i + j])"
        and mid: "\<forall>m. Suc i \<le> m \<longrightarrow> Suc m < Suc i + j \<longrightarrow> (\<exists>q. prepare_request h items b k m = Inr q)"
        and ok: "\<not> isl (fst (mapE (item_step h items b k) [Suc i..<length items] s1)) \<longrightarrow>
                  j = length items - Suc i \<and>
                  (\<forall>m. Suc i \<le> m \<longrightarrow> m < length items \<longrightarrow> (\<exists>q. prepare_request h items b k m = Inr q))"
        using "1.IH" [OF True] st Inr by auto
      have pi: "\<exists>q. prepare_request h items b k i = Inr q"
        using st Inr by (blast intro: item_step_Inr_prepared)
      have "[i..<i + Suc j] = i # [Suc i..<Suc i + j]"
        by (simp add: upt_conv_Cons)
      then have c: "loop_calls h items b k i s = concat (map (body_calls h items b k) [i..<i + Suc j])"
        using True st Inr calls by (simp add: loop_calls.simps)
      have m: "\<forall>m. i \<le> m \<longrightarrow> Suc m < i + Suc j \<longrightarrow> (\<exists>q. prepare_request h items b k m = Inr q)"
      proof (intro allI impI)
        fix m
        assume "i \<le> m" "Suc m < i + Suc j"
        then show "\<exists>q. prepare_request h items b k m = Inr q"
          using mid pi by (cases "m = i") auto
      qed
      have "\<not> isl (fst (mapE (item_step h items b k) [i..<length items] s)) \<longrightarrow>
              Suc j = length items - i \<and>
              (\<forall>m. i \<le> m \<longrightarrow> m < length items \<longrightarrow> (\<exists>q. prepare_request h items b k m = Inr q))"
      proof
        assume "\<not> isl (fst (mapE (item_step h items b k) [i..<length items] s))"
        then have "\<not> isl (fst (mapE (item_step h items b k) [Suc i..<length items] s1))"
          using st Inr
          by (cases "fst (mapE (item_step h items b k) [Suc i..<length items] s1)")
             (simp_all add: u mapE_Cons_Inr del: mapE.simps)
        with ok have j': "j = length items - Suc i"
          and all: "\<forall>m. Suc i \<le> m \<longrightarrow> m < length items \<longrightarrow> (\<exists>q. prepare_request h items b k m = Inr q)"
          by blast+
        have "\<forall>m. i \<le> m \<longrightarrow> m < length items \<longrightarrow> (\<exists>q. prepare_request h items b k m = Inr q)"
        proof (intro allI impI)
          fix m
          assume "i \<le> m" "m < length items"
          then show "\<exists>q. prepare_request h items b k m = Inr q"
            using all pi by (cases "m = i") auto
        qed
        with j' True show "Suc j = length items - i \<and>
            (\<forall>m. i \<le> m \<longrightarrow> m < length items \<longrightarrow> (\<exists>q. prepare_request h items b k m = Inr q))"
          by simp
      qed
      then show ?thesis
        using j True c m by (intro exI [of _ "Suc j"]) auto
    qed
  qed
qed


lemma execute_calls_loop:
  assumes "get_credentials h ''ReceiptliApi'' = Inr c"
  shows "execute_calls h s = GetInputData # GetCredentials ''ReceiptliApi'' #
           loop_calls h (input_data h) (c ''baseUrl'') (c ''apiKey'') 0 s"
    and "execute h s = mapR (\<lambda>rs. [wrap_output rs])
           (mapE (item_step h (input_data h) (c ''baseUrl'') (c ''apiKey'')) [0..<length (input_data h)]) s"
  using assms by (simp_all add: execute_calls_def execute_refines_apply)

lemma execute_calls_no_credentials:
  "isl (get_credentials h ''ReceiptliApi'') \<Longrightarrow>
   execute_calls h s = [GetInputData, GetCredentials ''ReceiptliApi''] \<and> execute h s = (Inl (projl (get_credentials h ''ReceiptliApi'')), s)"
  by (cases "get_credentials h ''ReceiptliApi''") (simp_all add: execute_calls_def execute_refines_apply)

subsection \<open>Properties of the trace\<close>

text \<open>C19: the order of the host calls. \<open>execute\<close> calls \<open>getInputData\<close>, then
  \<open>getCredentials\<close> once, then works through the items one after the other: the calls on
  item \<open>i\<close> are a non-empty prefix of \<open>getNodeParameter\<close> for
  \<open>binaryPropertyName\<close>, \<open>schema\<close>, \<open>language\<close>, then \<open>getBinaryDataBuffer\<close>,
  then \<open>helpers.request\<close>. Every item but the last one touched gets the whole sequence,
  and when \<open>execute\<close> succeeds every item gets it. The buffer of an item is read only
  after the item passed the binary check.\<close>

theorem execute_call_order:
  "\<exists>cs. execute_calls h s = GetInputData # GetCredentials ''ReceiptliApi'' # concat cs \<and>
        length cs \<le> length (input_data h) \<and>
        (\<forall>i < length cs. \<exists>p q. cs ! i \<noteq> [] \<and> prefix (cs ! i) (item_calls i p q) \<and>
            (Suc i < length cs \<or> \<not> isl (fst (execute h s)) \<longrightarrow> cs ! i = item_calls i p q)) \<and>
        (\<forall>i < length cs. \<forall>p. GetBinaryDataBuffer i p \<in> set (cs ! i) \<longrightarrow>
            (\<exists>obj e. item_binary (input_data h ! i) = Some obj \<and> js_get_binary obj p = Some e)) \<and>
        (\<not> isl (fst (execute h s)) \<longrightarrow> length cs = length (input_data h))"
proof (cases "get_credentials h ''ReceiptliApi''")
  case (Inl e)
  then show ?thesis
    using execute_calls_no_credentials [of h s] by (intro exI [of _ "[]"]) simp
next
  case (Inr c)
  let ?items = "input_data h" and ?b = "c ''baseUrl''" and ?k = "c ''apiKey''"
  obtain j where j: "j \<le> length ?items"
    and calls: "loop_calls h ?items ?b ?k 0 s = concat (map (body_calls h ?items ?b ?k) [0..<j])"
    and mid: "\<forall>m. Suc m < j \<longrightarrow> (\<exists>q. prepare_request h ?items ?b ?k m = Inr q)"
    and ok: "\<not> isl (fst (mapE (item_step h ?items ?b ?k) [0..<length ?items] s)) \<longrightarrow>
               j = length ?items \<and> (\<forall>m < length ?items. \<exists>q. prepare_request h ?items ?b ?k m = Inr q)"
    using loop_calls_shape [where h = h and items = ?items and b = ?b and k = ?k and i = 0 and s = s] by auto
  have ex: "isl (fst (execute h s)) = isl (fst (mapE (item_step h ?items ?b ?k) [0..<length ?items] s))"
    using Inr by (cases "fst (mapE (item_step h ?items ?b ?k) [0..<length ?items] s)")
                 (simp_all add: execute_calls_loop mapR_apply)
  have "\<forall>i < j. \<exists>p q. body_calls h ?items ?b ?k i \<noteq> [] \<and>
          prefix (body_calls h ?items ?b ?k i) (item_calls i p q) \<and>
          (Suc i < j \<or> \<not> isl (fst (execute h s)) \<longrightarrow> body_calls h ?items ?b ?k i = item_calls i p q)"
  proof (intro allI impI)
    fix i
    assume "i < j"
    then have "Suc i < j \<or> \<not> isl (fst (execute h s)) \<longrightarrow> (\<exists>q'. prepare_request h ?items ?b ?k i = Inr q')"
      using mid ok ex j by auto
    then show "\<exists>p q. body_calls h ?items ?b ?k i \<noteq> [] \<and>
          prefix (body_calls h ?items ?b ?k i) (item_calls i p q) \<and>
          (Suc i < j \<or> \<not> isl (fst (execute h s)) \<longrightarrow> body_calls h ?items ?b ?k i = item_calls i p q)"
      using body_calls_shape [of h ?items ?b ?k i] by blast
  qed
  then show ?thesis
    using Inr j calls ok ex body_calls_buffer_checked [of _ _ h ?items ?b ?k]
    by (intro exI [of _ "map (body_calls h ?items ?b ?k) [0..<j]"]) (simp add: execute_calls_loop)
qed

end
