(* ===== verification/Host_Library.thy ===== *)
theory Host_Library
  imports Receiptli
begin

text \<open>
  The host's request helper under the node's option \<open>json: true\<close>
  (\<open>src/nodes/Receiptli/Receiptli.node.ts\<close>, line 95), modelled from the helper's
  documented behaviour since its code is not in this repository: the helper tries to parse
  a successful reply's body as JSON, and a body that does not parse is kept as its text
  (\<open>parse_response\<close>). \<open>json_transport\<close> adds this to \<open>http_transport\<close>, for a
  parser \<open>parse\<close> given as a parameter. The lemmas show what a successful batch through
  \<open>json_transport\<close> outputs: per item, in item order, the parsed body of that item's
  reply, or its raw text.
\<close>

datatype 'v response_body = JsonBody 'v | TextBody string

definition parse_response :: "(string \<Rightarrow> 'v option) \<Rightarrow> request \<Rightarrow> string \<Rightarrow> 'v response_body" where
  "parse_response parse req text =
     (if req_json req then (case parse text of Some v \<Rightarrow> JsonBody v | None \<Rightarrow> TextBody text)
      else TextBody text)"

definition json_transport ::
  "(string \<Rightarrow> 'v option) \<Rightarrow> ('w \<Rightarrow> request \<Rightarrow> string server_reply \<times> 'w) \<Rightarrow> 'w \<Rightarrow> request \<Rightarrow>
   (request_error + 'v response_body) \<times> 'w" where
  "json_transport parse srv w req =
     (case http_transport srv w req of
        (Inl e, w') \<Rightarrow> (Inl e, w')
      | (Inr text, w') \<Rightarrow> (Inr (parse_response parse req text), w'))"

text \<open>What a reply body becomes when the request asked for JSON.\<close>

definition json_or_text :: "(string \<Rightarrow> 'v option) \<Rightarrow> string \<Rightarrow> 'v response_body" where
  "json_or_text parse t = (case parse t of Some v \<Rightarrow> JsonBody v | None \<Rightarrow> TextBody t)"

lemma prepared_options:
  "prepare_request h items b k i = Inr q \<Longrightarrow> req_json q \<and> req_timeout q = 3600000"
  by (auto dest: prepare_request_Inr simp: build_request_def)

lemma prepared_set:
  assumes "map (prepare_request h items b k) is = map Inr qs" and "q \<in> set qs"
  shows "\<exists>i. prepare_request h items b k i = Inr q"
proof -
  have "Inr q \<in> set (map (prepare_request h items b k) is)"
    using assms by simp
  then show ?thesis by auto
qed

lemma json_transport_ok:
  assumes "srv w q = (Reply st t lat, w')" and "200 \<le> st" and "st < 300" and "lat \<le> req_timeout q"
  shows "json_transport parse srv w q = (Inr (parse_response parse q t), w')"
  using assms by (simp add: json_transport_def http_transport_def)

lemma serve_json:
  assumes remote: "remote h = json_transport parse srv"
    and ok: "\<forall>w q. \<exists>st lat w'. srv w q = (Reply st (body q) lat, w') \<and> 200 \<le> st \<and> st < 300 \<and> lat \<le> 3600000"
    and opts: "\<forall>q \<in> set qs. req_json q \<and> req_timeout q = 3600000"
  shows "fst (serve h qs w) = Inr (map (\<lambda>q. json_or_text parse (body q)) qs)"
  using opts
proof (induction qs arbitrary: w)
  case Nil
  then show ?case by (simp add: serve_def exec_simps)
next
  case (Cons q qs)
  obtain st lat w' where r: "srv w q = (Reply st (body q) lat, w')" and s: "200 \<le> st" "st < 300"
      and l: "lat \<le> 3600000"
    using ok by blast
  have "req_json q" "req_timeout q = 3600000"
    using Cons.prems by simp_all
  with r s l have "remote h w q = (Inr (json_or_text parse (body q)), w')"
    using json_transport_ok [where srv = srv and w = w and q = q and parse = parse] remote
    by (simp add: parse_response_def json_or_text_def)
  moreover have "fst (serve h qs w') = Inr (map (\<lambda>q. json_or_text parse (body q)) qs)"
    using Cons by auto
  ultimately show ?case
    unfolding serve_def by (simp add: mapE_Cons_Inr del: mapE.simps)
qed

subsection \<open>Properties of the request helper\<close>

text \<open>C22: through a transport that parses JSON as \<open>json: true\<close> asks, with a server that
  answers every request with a 2xx status within the hour and a body \<open>body q\<close> for
  request \<open>q\<close>, \<open>execute\<close> succeeds with one output per item, in item order: the
  \<open>i\<close>-th output's \<open>json\<close> is the parsed body of the \<open>i\<close>-th item's request when the
  body parses and its raw text when it does not. A malformed body is passed downstream,
  not raised.\<close>

theorem execute_json_responses:
  assumes remote: "remote h = json_transport parse srv"
    and cred: "get_credentials h ''ReceiptliApi'' = Inr c"
    and prep: "map (prepare_request h (input_data h) (c ''baseUrl'') (c ''apiKey''))
                 [0..<length (input_data h)] = map Inr qs"
    and ok: "\<forall>w q. \<exists>st lat w'. srv w q = (Reply st (body q) lat, w') \<and> 200 \<le> st \<and> st < 300 \<and> lat \<le> 3600000"
  shows "fst (execute h s) =
           Inr [map (\<lambda>q. \<lparr>json = (case parse (body q) of Some v \<Rightarrow> JsonBody v | None \<Rightarrow> TextBody (body q))\<rparr>) qs]"
proof -
  have run: "execute h s = mapR (\<lambda>rs. [wrap_output rs]) (mapE (http_request h) qs) s"
    using cred mapE_item_step_prepared [OF prep] by (simp add: execute_refines_apply)
  have "\<forall>q \<in> set qs. req_json q \<and> req_timeout q = 3600000"
    using prepared_set [OF prep] prepared_options by blast
  then have "fst (serve h qs (world s)) = Inr (map (\<lambda>q. json_or_text parse (body q)) qs)"
    using serve_json [OF remote ok] by blast
  then show ?thesis
    using mapE_http_request [of h qs s]
    by (simp add: run mapR_apply wrap_output_def json_or_text_def comp_def)
qed

end
