(* ===== verification/Spec2Isabelle.thy ===== *)
theory Spec2Isabelle
  imports Prelude Descriptions Host Receiptli Loop_Machine Request_Format Host_Trace Host_Library
begin

text \<open>
  \<^bold>\<open>Receiptli: a verification development of the n8n document-extraction node.\<close>

  \<^bold>\<open>The program.\<close> Two TypeScript files. \<open>src/credentials/ReceiptliApi.credentials.ts\<close>
  declares the credential type \<open>ReceiptliApi\<close> (fields \<open>apiKey\<close>, secret, and
  \<open>baseUrl\<close>, default \<open>http://localhost:3000\<close>). \<open>src/nodes/Receiptli/Receiptli.node.ts\<close>
  declares the node: a \<open>description\<close> (parameters \<open>binaryPropertyName\<close>, default
  \<open>data\<close>; \<open>schema\<close>; \<open>language\<close>, options \<open>eng\<close>/\<open>ar\<close>, default
  \<open>eng\<close>) and an \<open>async execute()\<close>. \<open>execute\<close> reads the credential once, then for
  each input item in order reads the three parameters and checks that the item carries
  the named binary attachment, throwing otherwise. It fetches the attachment's bytes,
  awaits one multipart POST to \<open>{baseUrl}/api/v1/extract-text\<close> with
  \<open>Authorization: Bearer {apiKey}\<close> and a one-hour timeout, and pushes
  \<open>{json: response}\<close>. It returns \<open>[returnData]\<close>. The host (n8n) supplies every
  input and carries every effect: the items, the parameter values, the credential, the
  bytes, and the HTTP exchange.

  \<^bold>\<open>Theories.\<close>
  \<^item> \<open>Prelude\<close>: the \<open>exec\<close> monad \<open>'s \<Rightarrow> ('e + 'a) \<times> 's\<close> that models an async
    function that may throw (\<open>ret\<close>, \<open>throwE\<close>, \<open>liftE\<close>, \<open>bindE\<close> for
    \<open>await\<close>, \<open>mapR\<close>). \<open>mapE\<close> runs an operation over a list and stops at the
    first error. \<open>js_template\<close> and \<open>js_or\<close> give the JavaScript meaning of
    \<open>`${v}`\<close> and \<open>v || d\<close> on \<open>string | undefined\<close>. The shared \<open>mapE\<close>
    lemmas are the monad laws, append, step, length and totality.
  \<^item> \<open>Descriptions\<close>: the descriptor record \<open>node_property\<close>, the credential type
    (\<open>apiKey_property\<close>, \<open>baseUrl_property\<close>, \<open>ReceiptliApi\<close>) and the node
    description (\<open>Receiptli_description\<close> and its three properties), field for field.
    The host's reading of a description is modelled from the spec: parameter defaults
    (\<open>resolve_parameter\<close>) and the editor's option restriction (\<open>valid_config\<close>).
    The lemmas prove option resolution.
  \<^item> \<open>Host\<close>: the interface \<open>IExecuteFunctions\<close> as a record \<open>host\<close> of the five
    functions the node calls. It also holds the data the node exchanges (\<open>binary_data\<close>,
    \<open>input_item\<close>, \<open>output_item\<close>, \<open>request\<close>) and the error type
    \<open>node_error\<close>. The remote service is an arbitrary state-changing function on a world
    \<open>'w\<close>; the run state \<open>run_state\<close> holds that world and the list of requests sent.
    \<open>http_request\<close> is the awaited \<open>helpers.request\<close>; \<open>serve\<close> is the remote alone;
    \<open>http_transport\<close> (from the spec) gives the \<open>timeout\<close> option its meaning.
  \<^item> \<open>Receiptli\<close>: \<open>execute\<close> (lines 57--102). \<open>prepare_request\<close> is the loop body up
    to the request (parameter reads, the binary check with JavaScript property lookup
    \<open>js_get_binary\<close>, the buffer read, \<open>build_request\<close>). \<open>item_step\<close> adds the
    request. \<open>execute_loop\<close> is the \<open>for\<close> loop as a \<open>function\<close> with measure
    \<open>length items - i\<close>, and \<open>execute\<close> is the method. \<open>execute_spec\<close> is the
    reference form: \<open>mapE\<close> of the loop body over \<open>[0..<n]\<close>.
  \<^item> \<open>Loop_Machine\<close>: the same \<open>for\<close> loop as a small-step machine. A
    configuration \<open>conf\<close> is \<open>Loop i returnData s\<close> or the loop's end
    (\<open>Returned\<close>, \<open>Thrown\<close>). The inductive \<open>loop_step\<close> has one rule per way an
    iteration goes (guard fails; body completes and pushes; body throws), and
    \<open>loop_next\<close> is the executable step. The invariant \<open>loop_inv\<close> of reachable
    configurations is proved by rule induction, and termination as a step bound.
  \<^item> \<open>Request_Format\<close>: what the node does when the credential lacks its fields
    (the template text \<open>undefined\<close>), and the file options the \<open>||\<close> defaults
    produce; the lemmas show a request depends on the credential fields only through their
    template text and on the credential store only through the credential read.
  \<^item> \<open>Host_Trace\<close>: the host calls of \<open>execute\<close> in order, as a list of
    \<open>host_call\<close>s: \<open>body_calls\<close> for one iteration (each call made only when the
    earlier ones of the item succeeded), \<open>loop_calls\<close> for the loop and
    \<open>execute_calls\<close> for the method. Its lemmas give the shape of the trace item by
    item.
  \<^item> \<open>Host_Library\<close>: the host's request helper under \<open>json: true\<close>, modelled from
    its documentation: a successful body that does not parse as JSON is kept as text
    (\<open>parse_response\<close>, \<open>json_transport\<close>, for a parser given as a parameter).
  \<^item> \<open>Spec2Isabelle\<close> (this theory): the host that reads parameters from the node
    description (\<open>configured_parameter\<close>) and concrete hosts: the spec's invoice scenario,
    an item without binary data, an item read under an inherited member name, an
    attachment with an empty name and type (\<open>unnamed_host\<close>), a run with no items
    (\<open>no_items_host\<close>), a JSON-parsing remote whose server returns an HTML page
    (\<open>json_host\<close>), a server behind the HTTP transport that rejects with status 429
    (\<open>busy_host\<close>), and a saved credential with no fields. It holds the properties
    that span components and the witnesses of every claim with a hypothesis.

  \<^bold>\<open>What is proved.\<close> The loop equals its reference form (C6). When every item
  prepares, \<open>execute\<close> is exactly the remote serving the prepared requests in order,
  stopping at its first failure (C1). With an always-answering remote it returns exactly one
  output item per input item, in order, and sends each request once (C2). No partial output
  is ever returned (C8). The first failing item stops the batch before its request (C3); a
  missing binary property gives the node's error naming the property (C4). A missing
  credential fails before anything is sent (C7). Every request sent has the right method,
  URL, bearer header, JSON flag, one-hour timeout and non-empty filename and content type,
  and there are at most as many as there are items (C5). The URL gains a doubled slash
  exactly for a base URL ending in a slash (C9). Under a host that reads the description,
  languages are \<open>eng\<close> or \<open>ar\<close> (C10), with default \<open>eng\<close> (C11). A property name
  inherited from \<open>Object.prototype\<close> passes the binary check: the node asks the host
  for the buffer of an absent attachment instead of raising its own error (C12), which
  contradicts the spec. \<open>execute\<close> reads only the declared credential (C13).
  For the small-step loop: every configuration reachable from the start satisfies the
  invariant, one output item and one conforming request per completed iteration (C14),
  and a final configuration is reached within \<open>length items - i + 1\<close> steps (C15).
  A credential without \<open>baseUrl\<close> and \<open>apiKey\<close> is not rejected: the run is exactly
  the run with both set to the text \<open>undefined\<close> (C16). A non-2xx reply to the first
  request within the timeout ends the run with that status after exactly one request
  (C17). The file part carries the stored name and type unless they are absent or empty,
  and then \<open>document.pdf\<close> and \<open>application/pdf\<close> (C18). The host calls have the
  code's order: \<open>getInputData\<close>, \<open>getCredentials\<close> once, then item after item the
  three parameter reads, the buffer read and the request, cut short only on the last
  item touched, with a buffer read only after the binary check passed (C19). Through the
  HTTP transport, every request error is the transport's verdict on the last request
  sent: network error, timeout after one hour, or a non-2xx status (C20). With no items
  the node still reads the credential and returns \<open>[[]]\<close> or the credential error
  (C21). Through a JSON-parsing transport and a server that always answers 2xx in time,
  the outputs are, item by item and in order, the parsed bodies of the replies or their
  raw text when a body is not JSON; the batch does not fail on it (C22), which the spec
  does not expect.

  \<^bold>\<open>Bounds and termination.\<close> No fuel is needed. The only loop is the \<open>for\<close> over
  item indices, which terminates by the measure \<open>length items - i\<close>; in the
  small-step machine this is the step bound of C15. Every host call is one step, and
  whether the remote ever answers is outside the node: a non-answering remote is one
  that returns \<open>Timeout\<close>.

  \<^bold>\<open>Not modelled.\<close> Every statement of the two source files is modelled; the lines
  outside the map are imports, class headers and closing braces. What remains belongs to
  the host, not to this repository, and no faithful model of it can be drawn from the
  sources: the evaluation of parameter expressions in \<open>getNodeParameter\<close>, binary-data
  storage behind \<open>getBinaryDataBuffer\<close>, the request library beyond its timeout, status
  handling and JSON parsing (multipart encoding, redirects, TLS), a concrete JSON parser
  (\<open>json_transport\<close> takes one as a parameter), the remote service (any behaviour is
  allowed), and the package assets (icon, \<open>package.json\<close>, \<open>tsconfig\<close>), which have
  no behaviour. Responses are an arbitrary type \<open>'j\<close> passed through untouched.
\<close>

subsection \<open>The host that reads the node description\<close>

text \<open>The parameter reader of a host that resolves the node's declared parameters from a
  per-item configuration, with the description's defaults.\<close>

definition configured_parameter :: "(nat \<Rightarrow> string \<rightharpoonup> string) \<Rightarrow> string \<Rightarrow> nat \<Rightarrow> string option" where
  "configured_parameter cfg n i = resolve_parameter (desc_properties Receiptli_description) (cfg i) n"

subsection \<open>Concrete hosts\<close>

datatype json_value = JNull | JNum int | JStr string | JArr "json_value list"
  | JObj "(string \<times> json_value) list"

definition invoice_schema :: string where
  "invoice_schema =
     ''{'' @ [CHR 0x22] @ ''total'' @ [CHR 0x22] @ '': '' @ [CHR 0x22] @ ''number'' @ [CHR 0x22] @ ''}''"

definition invoice_pdf :: binary_data where
  "invoice_pdf = \<lparr>bin_data = ''JVBERi0='', bin_mimeType = ''application/pdf'', bin_fileName = Some ''invoice.pdf''\<rparr>"

definition invoice_bytes :: bytes where
  "invoice_bytes = [0x25, 0x50, 0x44, 0x46]"

definition invoice_config :: "nat \<Rightarrow> string \<rightharpoonup> string" where
  "invoice_config i = [''schema'' \<mapsto> invoice_schema]"

definition invoice_reply :: json_value where
  "invoice_reply = JObj [(''total'', JNum 42)]"

definition invoice_item :: input_item where
  "invoice_item = \<lparr>item_binary = Some [''data'' \<mapsto> invoice_pdf]\<rparr>"

definition invoice_credentials :: "string \<rightharpoonup> string" where
  "invoice_credentials = [''apiKey'' \<mapsto> ''k1'', ''baseUrl'' \<mapsto> ''http://localhost:3000'']"

text \<open>One input item carrying \<open>invoice.pdf\<close> in property \<open>data\<close>, credentials
  \<open>{apiKey: "k1", baseUrl: "http://localhost:3000"}\<close>, and a remote that answers every
  request with the same JSON object and counts the requests it has served.\<close>

definition invoice_host :: "(nat, json_value) host" where
  "invoice_host =
     \<lparr>input_data = [invoice_item],
      credentials_of = [''ReceiptliApi'' \<mapsto> invoice_credentials],
      node_parameter = configured_parameter invoice_config,
      binary_buffer = (\<lambda>i n. Some invoice_bytes),
      remote = (\<lambda>w q. (Inr invoice_reply, Suc w))\<rparr>"

definition invoice_request :: request where
  "invoice_request =
     \<lparr>req_method = ''POST'', req_url = ''http://localhost:3000/api/v1/extract-text'',
      req_headers = [(''Authorization'', ''Bearer k1'')],
      req_formData =
        \<lparr>form_file = \<lparr>file_value = invoice_bytes, file_filename = ''invoice.pdf'',
                      file_contentType = ''application/pdf''\<rparr>,
         form_schema = invoice_schema, form_language = ''eng''\<rparr>,
      req_json = True, req_timeout = 3600000\<rparr>"

definition start_state :: "nat run_state" where
  "start_state = \<lparr>world = 0, sent = []\<rparr>"

text \<open>The same item without any binary data.\<close>

definition bare_item :: input_item where
  "bare_item = \<lparr>item_binary = None\<rparr>"

definition bare_host :: "(nat, json_value) host" where
  "bare_host = invoice_host\<lparr>input_data := [bare_item]\<rparr>"

text \<open>An item whose binary object is empty, read under the property name
  \<open>toString\<close>.\<close>

definition empty_item :: input_item where
  "empty_item = \<lparr>item_binary = Some Map.empty\<rparr>"

definition prototype_host :: "(nat, json_value) host" where
  "prototype_host =
     invoice_host\<lparr>input_data := [empty_item],
                  node_parameter := configured_parameter (\<lambda>i. [''binaryPropertyName'' \<mapsto> ''toString'',
                                                        ''schema'' \<mapsto> invoice_schema])\<rparr>"

definition prototype_request :: request where
  "prototype_request =
     build_request (Some ''http://localhost:3000'') (Some ''k1'') (InheritedMember ''toString'')
       invoice_bytes invoice_schema ''eng''"

text \<open>A remote reached through the HTTP transport, whose server answers every request
  with status 429 after 10 ms, and a host whose saved credential has neither field.\<close>

definition busy_server :: "nat \<Rightarrow> request \<Rightarrow> json_value server_reply \<times> nat" where
  "busy_server w q = (Reply 429 JNull 10, Suc w)"

definition busy_host :: "(nat, json_value) host" where
  "busy_host = invoice_host\<lparr>remote := http_transport busy_server\<rparr>"

definition blank_credentials_host :: "(nat, json_value) host" where
  "blank_credentials_host = invoice_host\<lparr>credentials_of := [''ReceiptliApi'' \<mapsto> Map.empty]\<rparr>"

text \<open>An attachment saved with an empty file name and an empty MIME type.\<close>

definition unnamed_pdf :: binary_data where
  "unnamed_pdf = \<lparr>bin_data = ''JVBERi0='', bin_mimeType = [], bin_fileName = Some []\<rparr>"

definition unnamed_host :: "(nat, json_value) host" where
  "unnamed_host = invoice_host\<lparr>input_data := [\<lparr>item_binary = Some [''data'' \<mapsto> unnamed_pdf]\<rparr>]\<rparr>"

text \<open>A run with no input items.\<close>

definition no_items_host :: "(nat, json_value) host" where
  "no_items_host = invoice_host\<lparr>input_data := []\<rparr>"

text \<open>A server that answers every request with status 200 and an HTML page, read by a
  parser that recognises only the text \<open>{}\<close>.\<close>

definition text_server :: "nat \<Rightarrow> request \<Rightarrow> string server_reply \<times> nat" where
  "text_server w q = (Reply 200 ''<html>busy</html>'' 5, Suc w)"

definition empty_object_parser :: "string \<Rightarrow> json_value option" where
  "empty_object_parser t = (if t = ''{}'' then Some (JArr []) else None)"

definition json_host :: "(nat, json_value response_body) host" where
  "json_host =
     \<lparr>input_data = [invoice_item],
      credentials_of = [''ReceiptliApi'' \<mapsto> invoice_credentials],
      node_parameter = configured_parameter invoice_config,
      binary_buffer = (\<lambda>i n. Some invoice_bytes),
      remote = json_transport empty_object_parser text_server\<rparr>"

lemma invoice_host_fields [simp]:
  "input_data invoice_host = [invoice_item]"
  "credentials_of invoice_host ''ReceiptliApi'' = Some invoice_credentials"
  "remote invoice_host = (\<lambda>w q. (Inr invoice_reply, Suc w))"
  "input_data bare_host = [bare_item]"
  "credentials_of bare_host = credentials_of invoice_host"
  "remote bare_host = remote invoice_host"
  "input_data prototype_host = [empty_item]"
  "credentials_of prototype_host = credentials_of invoice_host"
  "remote prototype_host = remote invoice_host"
  by (simp_all add: invoice_host_def bare_host_def prototype_host_def)

lemma invoice_credentials_fields [simp]:
  "invoice_credentials ''baseUrl'' = Some ''http://localhost:3000''"
  "invoice_credentials ''apiKey'' = Some ''k1''"
  by (simp_all add: invoice_credentials_def)

lemmas host_param_defs = invoice_host_def bare_host_def prototype_host_def invoice_config_def
  configured_parameter_def resolve_parameter_def find_property_def Receiptli_description_def
  property_defs get_node_parameter_def get_binary_data_buffer_def

lemma invoice_prepared:
  "prepare_request invoice_host [invoice_item] (Some ''http://localhost:3000'') (Some ''k1'') 0 =
     Inr invoice_request"
  by (simp add: host_param_defs prepare_request_def js_get_binary_def build_request_def
      invoice_request_def extract_text_url_def bearer_def invoice_pdf_def invoice_item_def)

lemma prototype_prepared:
  "prepare_request prototype_host [empty_item] (Some ''http://localhost:3000'') (Some ''k1'') 0 =
     Inr prototype_request"
  by (simp add: host_param_defs prepare_request_def js_get_binary_def empty_item_def
      object_prototype_members_def prototype_request_def)

lemma bare_not_prepared:
  "prepare_request bare_host [bare_item] (Some ''http://localhost:3000'') (Some ''k1'') 0 =
     Inl (NodeError (no_binary_message ''data''))"
  by (simp add: host_param_defs prepare_request_def bare_item_def)

lemma invoice_run:
  "execute invoice_host start_state =
     (Inr [[\<lparr>json = invoice_reply\<rparr>]], \<lparr>world = 1, sent = [invoice_request]\<rparr>)"
  by (simp add: execute_refines_apply get_credentials_def mapR_apply exec_simps item_step_Inr [OF invoice_prepared]
      http_request_apply start_state_def wrap_output_def)

lemma language_property_in_description:
  "language_property \<in> set (desc_properties Receiptli_description) \<and>
   prop_name language_property = ''language'' \<and> prop_type language_property = POptions \<and>
   option_values language_property = [''eng'', ''ar''] \<and> prop_default language_property = ''eng''"
  by (simp add: Receiptli_description_def language_property_def option_values_def)

lemma execute_first_request_fails:
  assumes "get_credentials h ''ReceiptliApi'' = Inr c"
    and "input_data h \<noteq> []"
    and "prepare_request h (input_data h) (c ''baseUrl'') (c ''apiKey'') 0 = Inr q"
    and "remote h (world s) q = (Inl e, w')"
  shows "execute h s = (Inl (RequestError e), s\<lparr>world := w', sent := sent s @ [q]\<rparr>)"
proof -
  have "[0..<length (input_data h)] = 0 # [1..<length (input_data h)]"
    using assms(2) by (simp add: upt_rec)
  moreover have "item_step h (input_data h) (c ''baseUrl'') (c ''apiKey'') 0 s =
      (Inl (RequestError e), s\<lparr>world := w', sent := sent s @ [q]\<rparr>)"
    using assms(3,4) by (simp add: item_step_Inr http_request_apply)
  ultimately show ?thesis
    using assms(1) by (simp add: execute_refines_apply mapR_apply mapE_Cons_Inl del: mapE.simps)
qed

lemma prepared_timeout:
  "prepare_request h items b k i = Inr q \<Longrightarrow> req_timeout q = 3600000"
  by (auto dest: prepare_request_Inr simp: build_request_def)

lemma prepare_request_not_request_error:
  "prepare_request h items b k i \<noteq> Inl (RequestError e)"
  by (simp add: prepare_request_def get_node_parameter_def get_binary_data_buffer_def
      split: sum.splits option.splits)

lemma mapE_item_step_request_error:
  "fst (mapE (item_step h items b k) is s) = Inl (RequestError e) \<Longrightarrow>
   \<exists>q s0. request_conforms b k q \<and> fst (remote h (world s0) q) = Inl e \<and>
          snd (mapE (item_step h items b k) is s) =
            s0\<lparr>world := snd (remote h (world s0) q), sent := sent s0 @ [q]\<rparr>"
proof (induction "is" arbitrary: s)
  case Nil
  then show ?case by (simp add: exec_simps)
next
  case (Cons i "is")
  obtain r s1 where st: "item_step h items b k i s = (r, s1)"
    by fastforce
  show ?case
  proof (cases r)
    case (Inl e')
    with st Cons.prems have e': "e' = RequestError e"
      and m: "snd (mapE (item_step h items b k) (i # is) s) = s1"
      by (simp_all add: mapE_Cons_Inl del: mapE.simps)
    show ?thesis
    proof (cases "prepare_request h items b k i")
      case (Inl e2)
      then have "item_step h items b k i s = (Inl e2, s)"
        by (rule item_step_Inl)
      with st Inl e' \<open>r = Inl e'\<close> have "prepare_request h items b k i = Inl (RequestError e)"
        by simp
      then show ?thesis
        using prepare_request_not_request_error by blast
    next
      case (Inr q)
      then have "request_conforms b k q"
        using prepare_request_Inr build_request_conforms by metis
      moreover have "http_request h q s = (Inl (RequestError e), s1)"
        using st Inr \<open>r = Inl e'\<close> e' by (simp add: item_step_Inr)
      then have "fst (remote h (world s) q) = Inl e"
        and "s1 = s\<lparr>world := snd (remote h (world s) q), sent := sent s @ [q]\<rparr>"
        by (cases "fst (remote h (world s) q)"; simp add: http_request_apply)+
      ultimately show ?thesis
        using m by blast
    qed
  next
    case (Inr y)
    with st Cons.prems have "fst (mapE (item_step h items b k) is s1) = Inl (RequestError e)"
      and "snd (mapE (item_step h items b k) (i # is) s) = snd (mapE (item_step h items b k) is s1)"
      by (cases "fst (mapE (item_step h items b k) is s1)"; simp add: mapE_Cons_Inr del: mapE.simps)+
    then show ?thesis
      using Cons.IH by metis
  qed
qed

lemma http_transport_Inl:
  "fst (http_transport srv w q) = Inl e \<Longrightarrow>
   snd (http_transport srv w q) = snd (srv w q) \<and>
   (case fst (srv w q) of
      Unreachable \<Rightarrow> e = NetworkError
    | Reply st body lat \<Rightarrow>
        if req_timeout q < lat then e = Timeout else \<not> (200 \<le> st \<and> st < 300) \<and> e = HttpStatus st)"
  by (auto simp: http_transport_def split: prod.splits server_reply.splits if_splits)

subsection \<open>Properties across the components\<close>

text \<open>C10: when the host resolves the node's parameters from its description under a
  configuration the editor accepts, every request the node sends carries the language
  code \<open>eng\<close> or \<open>ar\<close>.\<close>

theorem configured_language_in_options:
  assumes host: "node_parameter h = configured_parameter cfg"
    and valid: "\<forall>i. valid_config (desc_properties Receiptli_description) (cfg i)"
  shows "\<exists>new. sent (snd (execute h s)) = sent s @ new \<and>
              (\<forall>q \<in> set new. form_language (req_formData q) \<in> {''eng'', ''ar''})"
proof -
  obtain new where new: "sent (snd (execute h s)) = sent s @ new"
    and prep: "\<forall>q \<in> set new. \<exists>c j. prepare_request h (input_data h) (c ''baseUrl'') (c ''apiKey'') j = Inr q"
    using execute_sent_prepared by blast
  have "form_language (req_formData q) \<in> {''eng'', ''ar''}" if q_in: "q \<in> set new" for q
  proof -
    obtain c j where "prepare_request h (input_data h) (c ''baseUrl'') (c ''apiKey'') j = Inr q"
      using bspec [OF prep q_in] by blast
    then have "node_parameter h ''language'' j = Some (form_language (req_formData q))"
      by (rule prepare_request_Inr_language)
    then have lang: "resolve_parameter (desc_properties Receiptli_description) (cfg j) ''language'' =
                       Some (form_language (req_formData q))"
      using host by (simp add: configured_parameter_def)
    obtain v where "resolve_parameter (desc_properties Receiptli_description) (cfg j) ''language'' = Some v"
        and "v \<in> set [''eng'', ''ar'']"
      using resolve_options_parameter [OF Receiptli_properties_wf, of "cfg j" language_property]
        valid language_property_in_description by auto
    with lang show ?thesis by simp
  qed
  with new show ?thesis by blast
qed

text \<open>C11: an item for which the language was left unset is sent with language
  \<open>eng\<close>, the description's default.\<close>

theorem configured_language_default:
  assumes "node_parameter h = configured_parameter cfg" and "cfg i ''language'' = None"
    and "prepare_request h items b k i = Inr q"
  shows "form_language (req_formData q) = ''eng''"
proof -
  have "node_parameter h ''language'' i = Some (form_language (req_formData q))"
    using assms(3) by (rule prepare_request_Inr_language)
  then show ?thesis
    using assms(1,2)
    by (simp add: configured_parameter_def resolve_parameter_def find_property_def
        Receiptli_description_def property_defs)
qed

text \<open>C12: the binary-property check does not reject a property name that a JavaScript
  object inherits from \<open>Object.prototype\<close> (\<open>toString\<close>, \<open>constructor\<close>, ...):
  for an item whose binary object has no attachment under that name, the node does not
  raise its missing-binary error; it asks the host for the buffer of the absent
  attachment, and whatever the host answers decides the item: its error, or a request
  built from the inherited member (so with the default file name and content type).\<close>

theorem inherited_member_passes_binary_check:
  assumes "get_node_parameter h ''binaryPropertyName'' i = Inr p"
    and "get_node_parameter h ''schema'' i = Inr sc"
    and "get_node_parameter h ''language'' i = Inr l"
    and "item_binary (items ! i) = Some obj" and "obj p = None"
    and "p \<in> set object_prototype_members"
  shows "prepare_request h items b k i =
           (case get_binary_data_buffer h i p of
              Inl e \<Rightarrow> Inl e
            | Inr buf \<Rightarrow> Inr (build_request b k (InheritedMember p) buf sc l)) \<and>
         prepare_request h items b k i \<noteq> Inl (NodeError (no_binary_message p)) \<and>
         GetBinaryDataBuffer i p \<in> set (body_calls h items b k i)"
  using assms
  by (simp add: prepare_request_def js_get_binary_def body_calls_def get_binary_data_buffer_def
      split: sum.splits option.splits)

text \<open>C13: \<open>execute\<close> depends on no credential but the one the node description
  declares: changing any other stored credential does not change any run.\<close>

theorem execute_reads_only_declared_credential:
  "n \<noteq> cref_name (hd (desc_credentials Receiptli_description)) \<Longrightarrow>
   execute (h\<lparr>credentials_of := (credentials_of h)(n := x)\<rparr>) = execute h"
proof -
  assume "n \<noteq> cref_name (hd (desc_credentials Receiptli_description))"
  then have "n \<noteq> ''ReceiptliApi''" by (simp add: Receiptli_description_def)
  then show ?thesis
    by (simp add: execute_eq_spec execute_spec_def get_credentials_def item_step_credentials_update)
qed

text \<open>C17: through the HTTP transport, a first item whose request the server rejects with
  a non-2xx status within the node's one-hour timeout ends the run with that status as a
  request error: exactly one request was sent, and the remote's state is the server's.\<close>

theorem execute_first_request_rejected:
  assumes "get_credentials h ''ReceiptliApi'' = Inr c"
    and "input_data h \<noteq> []"
    and "prepare_request h (input_data h) (c ''baseUrl'') (c ''apiKey'') 0 = Inr q"
    and "remote h = http_transport srv"
    and "srv (world s) q = (Reply st body lat, w')"
    and "lat \<le> 3600000" and "\<not> (200 \<le> st \<and> st < 300)"
  shows "execute h s = (Inl (RequestError (HttpStatus st)), s\<lparr>world := w', sent := sent s @ [q]\<rparr>)"
proof -
  have "req_timeout q = 3600000"
    using assms(3) by (rule prepared_timeout)
  then have "remote h (world s) q = (Inl (HttpStatus st), w')"
    using assms(4-7) by (simp add: http_transport_def)
  with assms(1-3) show ?thesis
    by (rule execute_first_request_fails)
qed

text \<open>C20: through the HTTP transport, every request error of \<open>execute\<close> is the
  transport's verdict on the last request sent: the run ends in the world the server left,
  and the error is \<open>NetworkError\<close> when the server was unreachable, \<open>Timeout\<close> when it
  answered after more than one hour, and otherwise the reply's status, which is then not
  2xx.\<close>

theorem execute_request_error_class:
  assumes "remote h = http_transport srv"
    and "execute h s = (Inl (RequestError e), s')"
  shows "\<exists>q w. sent s' \<noteq> [] \<and> last (sent s') = q \<and> world s' = snd (srv w q) \<and>
           req_timeout q = 3600000 \<and>
           (case fst (srv w q) of
              Unreachable \<Rightarrow> e = NetworkError
            | Reply st body lat \<Rightarrow>
                if 3600000 < lat then e = Timeout else \<not> (200 \<le> st \<and> st < 300) \<and> e = HttpStatus st)"
proof (cases "get_credentials h ''ReceiptliApi''")
  case (Inl e0)
  then show ?thesis
    using assms(2) by (simp add: execute_refines_apply get_credentials_def split: option.splits)
next
  case (Inr c)
  let ?m = "mapE (item_step h (input_data h) (c ''baseUrl'') (c ''apiKey'')) [0..<length (input_data h)] s"
  have "fst ?m = Inl (RequestError e)" and s': "s' = snd ?m"
    using assms(2) Inr by (cases "fst ?m"; simp add: execute_refines_apply mapR_apply)+
  then obtain q s0 where conf: "request_conforms (c ''baseUrl'') (c ''apiKey'') q"
    and r: "fst (remote h (world s0) q) = Inl e"
    and st: "s' = s0\<lparr>world := snd (remote h (world s0) q), sent := sent s0 @ [q]\<rparr>"
    using mapE_item_step_request_error by metis
  have t: "req_timeout q = 3600000"
    using conf by (simp add: request_conforms_def)
  have "fst (http_transport srv (world s0) q) = Inl e"
    using r assms(1) by simp
  from http_transport_Inl [OF this, unfolded t] show ?thesis
    using st t assms(1) by (intro exI [of _ q] exI [of _ "world s0"]) simp
qed

text \<open>C21: with no input items the loop body never runs: \<open>execute\<close> still reads the
  credential, fails if it is missing, and otherwise returns one empty output branch
  without changing the state; its only host calls are \<open>getInputData\<close> and
  \<open>getCredentials\<close>.\<close>

theorem execute_empty_input:
  assumes "input_data h = []"
  shows "execute h s = (case get_credentials h ''ReceiptliApi'' of Inl e \<Rightarrow> (Inl e, s) | Inr c \<Rightarrow> (Inr [[]], s)) \<and>
         execute_calls h s = [GetInputData, GetCredentials ''ReceiptliApi'']"
  using assms
  by (simp add: execute_refines_apply execute_calls_def loop_calls.simps mapR_apply exec_simps
      wrap_output_def split: sum.splits)

subsection \<open>Witnesses\<close>

theorem execute_serves_prepared_requests_witness:
  "get_credentials invoice_host ''ReceiptliApi'' = Inr invoice_credentials \<and>
   map (prepare_request invoice_host (input_data invoice_host) (invoice_credentials ''baseUrl'')
       (invoice_credentials ''apiKey'')) [0..<length (input_data invoice_host)] = map Inr [invoice_request] \<and>
   fst (execute invoice_host start_state) =
     map_sum RequestError (\<lambda>rs. [wrap_output rs]) (fst (serve invoice_host [invoice_request] (world start_state))) \<and>
   world (snd (execute invoice_host start_state)) = snd (serve invoice_host [invoice_request] (world start_state)) \<and>
   (\<exists>j \<le> length [invoice_request]. sent (snd (execute invoice_host start_state)) = sent start_state @ take j [invoice_request])"
proof -
  have c: "get_credentials invoice_host ''ReceiptliApi'' = Inr invoice_credentials"
    by (simp add: get_credentials_def)
  have p: "map (prepare_request invoice_host (input_data invoice_host) (invoice_credentials ''baseUrl'')
       (invoice_credentials ''apiKey'')) [0..<length (input_data invoice_host)] = map Inr [invoice_request]"
    by (simp add: invoice_prepared)
  show ?thesis
    using execute_serves_prepared_requests [OF c p, of start_state] c p by blast
qed

lemma invoice_credentials_found:
  "get_credentials invoice_host ''ReceiptliApi'' = Inr invoice_credentials"
  "get_credentials bare_host ''ReceiptliApi'' = Inr invoice_credentials"
  by (simp_all add: get_credentials_def)

lemma invoice_remote_total: "\<forall>w q. \<not> isl (fst (remote invoice_host w q))"
  by simp

lemma bare_remote_total: "\<forall>w q. \<not> isl (fst (remote bare_host w q))"
  by simp

theorem execute_one_result_per_item_witness:
  "get_credentials invoice_host ''ReceiptliApi'' = Inr invoice_credentials \<and>
   map (prepare_request invoice_host (input_data invoice_host) (invoice_credentials ''baseUrl'')
       (invoice_credentials ''apiKey'')) [0..<length (input_data invoice_host)] = map Inr [invoice_request] \<and>
   (\<forall>w q. \<not> isl (fst (remote invoice_host w q))) \<and>
   (\<exists>rs. fst (serve invoice_host [invoice_request] (world start_state)) = Inr rs \<and>
         fst (execute invoice_host start_state) = Inr [wrap_output rs] \<and>
         length rs = length (input_data invoice_host) \<and>
         sent (snd (execute invoice_host start_state)) = sent start_state @ [invoice_request])"
proof -
  have p: "map (prepare_request invoice_host (input_data invoice_host) (invoice_credentials ''baseUrl'')
       (invoice_credentials ''apiKey'')) [0..<length (input_data invoice_host)] = map Inr [invoice_request]"
    by (simp add: invoice_prepared)
  show ?thesis
    using execute_one_result_per_item [OF invoice_credentials_found(1) p invoice_remote_total, of start_state]
      invoice_credentials_found(1) p invoice_remote_total by blast
qed

theorem execute_stops_at_failed_item_witness:
  "get_credentials bare_host ''ReceiptliApi'' = Inr invoice_credentials \<and>
   0 < length (input_data bare_host) \<and>
   map (prepare_request bare_host (input_data bare_host) (invoice_credentials ''baseUrl'')
       (invoice_credentials ''apiKey'')) [0..<0] = map Inr [] \<and>
   prepare_request bare_host (input_data bare_host) (invoice_credentials ''baseUrl'')
       (invoice_credentials ''apiKey'') 0 = Inl (NodeError (no_binary_message ''data'')) \<and>
   isl (fst (execute bare_host start_state)) \<and>
   (\<exists>j \<le> 0. sent (snd (execute bare_host start_state)) = sent start_state @ take j [])"
proof -
  have m: "0 < length (input_data bare_host)" by simp
  have p: "map (prepare_request bare_host (input_data bare_host) (invoice_credentials ''baseUrl'')
       (invoice_credentials ''apiKey'')) [0..<0] = map Inr []" by simp
  have f: "prepare_request bare_host (input_data bare_host) (invoice_credentials ''baseUrl'')
       (invoice_credentials ''apiKey'') 0 = Inl (NodeError (no_binary_message ''data''))"
    by (simp add: bare_not_prepared)
  show ?thesis
    using execute_stops_at_failed_item [OF invoice_credentials_found(2) m p f, of start_state]
      invoice_credentials_found(2) m p f by blast
qed

lemma bare_params:
  "node_parameter bare_host ''binaryPropertyName'' 0 = Some ''data''"
  "node_parameter bare_host ''schema'' 0 = Some invoice_schema"
  "node_parameter bare_host ''language'' 0 = Some ''eng''"
  "case item_binary (input_data bare_host ! 0) of None \<Rightarrow> True | Some bin \<Rightarrow> js_get_binary bin ''data'' = None"
  by (simp_all add: host_param_defs bare_item_def)

theorem execute_missing_binary_witness:
  "get_credentials bare_host ''ReceiptliApi'' = Inr invoice_credentials \<and>
   0 < length (input_data bare_host) \<and>
   map (prepare_request bare_host (input_data bare_host) (invoice_credentials ''baseUrl'')
       (invoice_credentials ''apiKey'')) [0..<0] = map Inr [] \<and>
   (\<forall>w q. \<not> isl (fst (remote bare_host w q))) \<and>
   node_parameter bare_host ''binaryPropertyName'' 0 = Some ''data'' \<and>
   node_parameter bare_host ''schema'' 0 = Some invoice_schema \<and>
   node_parameter bare_host ''language'' 0 = Some ''eng'' \<and>
   (case item_binary (input_data bare_host ! 0) of None \<Rightarrow> True | Some bin \<Rightarrow> js_get_binary bin ''data'' = None) \<and>
   fst (execute bare_host start_state) = Inl (NodeError (no_binary_message ''data'')) \<and>
   world (snd (execute bare_host start_state)) = snd (serve bare_host [] (world start_state)) \<and>
   sent (snd (execute bare_host start_state)) = sent start_state @ []"
proof -
  have m: "0 < length (input_data bare_host)" by simp
  have p: "map (prepare_request bare_host (input_data bare_host) (invoice_credentials ''baseUrl'')
       (invoice_credentials ''apiKey'')) [0..<0] = map Inr []" by simp
  show ?thesis
    using execute_missing_binary [OF invoice_credentials_found(2) m p bare_remote_total bare_params, of start_state]
      invoice_credentials_found(2) m p bare_remote_total bare_params by blast
qed

theorem execute_sent_requests_conform_witness:
  "get_credentials invoice_host ''ReceiptliApi'' = Inr invoice_credentials \<and>
   (\<exists>new. sent (snd (execute invoice_host start_state)) = sent start_state @ new \<and>
          length new \<le> length (input_data invoice_host) \<and>
          (\<forall>q \<in> set new. request_conforms (invoice_credentials ''baseUrl'') (invoice_credentials ''apiKey'') q))"
  using execute_sent_requests_conform [OF invoice_credentials_found(1), of start_state]
    invoice_credentials_found(1) by blast

theorem execute_credentials_missing_witness:
  "credentials_of (invoice_host\<lparr>credentials_of := Map.empty\<rparr>) ''ReceiptliApi'' = None \<and>
   execute (invoice_host\<lparr>credentials_of := Map.empty\<rparr>) start_state =
     (Inl (CredentialsError ''ReceiptliApi''), start_state)"
proof -
  have c: "credentials_of (invoice_host\<lparr>credentials_of := Map.empty\<rparr>) ''ReceiptliApi'' = None"
    by simp
  show ?thesis
    using execute_credentials_missing [OF c] c by blast
qed

theorem execute_no_partial_output_witness:
  "fst (execute invoice_host start_state) = Inr [[\<lparr>json = invoice_reply\<rparr>]] \<and>
   (\<exists>rs. [[\<lparr>json = invoice_reply\<rparr>]] = [wrap_output rs] \<and> length rs = length (input_data invoice_host))"
proof -
  have r: "fst (execute invoice_host start_state) = Inr [[\<lparr>json = invoice_reply\<rparr>]]"
    by (simp add: invoice_run)
  show ?thesis
    using execute_no_partial_output [OF r] r by blast
qed

lemma invoice_config_valid:
  "node_parameter invoice_host = configured_parameter invoice_config"
  "\<forall>i. valid_config (desc_properties Receiptli_description) (invoice_config i)"
  "invoice_config 0 ''language'' = None"
  by (simp_all add: invoice_host_def valid_config_def invoice_config_def Receiptli_description_def
      property_defs)

theorem configured_language_in_options_witness:
  "node_parameter invoice_host = configured_parameter invoice_config \<and>
   (\<forall>i. valid_config (desc_properties Receiptli_description) (invoice_config i)) \<and>
   (\<exists>new. sent (snd (execute invoice_host start_state)) = sent start_state @ new \<and>
          (\<forall>q \<in> set new. form_language (req_formData q) \<in> {''eng'', ''ar''}))"
  using configured_language_in_options [OF invoice_config_valid(1,2), of start_state]
    invoice_config_valid(1,2) by blast

theorem configured_language_default_witness:
  "node_parameter invoice_host = configured_parameter invoice_config \<and>
   invoice_config 0 ''language'' = None \<and>
   prepare_request invoice_host [invoice_item] (Some ''http://localhost:3000'') (Some ''k1'') 0 =
     Inr invoice_request \<and>
   form_language (req_formData invoice_request) = ''eng''"
  using configured_language_default [OF invoice_config_valid(1,3) invoice_prepared]
    invoice_config_valid(1,3) invoice_prepared by blast

theorem execute_reads_only_declared_credential_witness:
  "''OtherApi'' \<noteq> cref_name (hd (desc_credentials Receiptli_description)) \<and>
   execute (invoice_host\<lparr>credentials_of := (credentials_of invoice_host)(''OtherApi'' := None)\<rparr>) =
     execute invoice_host"
proof -
  have n: "''OtherApi'' \<noteq> cref_name (hd (desc_credentials Receiptli_description))"
    by (simp add: Receiptli_description_def)
  show ?thesis
    using execute_reads_only_declared_credential [OF n] n by blast
qed

lemma invoice_item_step:
  "item_step invoice_host [invoice_item] (Some ''http://localhost:3000'') (Some ''k1'') 0 start_state =
     (Inr invoice_reply, \<lparr>world = 1, sent = [invoice_request]\<rparr>)"
  by (simp add: item_step_Inr [OF invoice_prepared] http_request_apply start_state_def)

theorem loop_reachable_inv_witness:
  "(loop_step invoice_host [invoice_item] (Some ''http://localhost:3000'') (Some ''k1''))\<^sup>*\<^sup>*
      (Loop 0 [] start_state) (Returned [\<lparr>json = invoice_reply\<rparr>] \<lparr>world = 1, sent = [invoice_request]\<rparr>) \<and>
   loop_inv [invoice_item] (Some ''http://localhost:3000'') (Some ''k1'') start_state
      (Returned [\<lparr>json = invoice_reply\<rparr>] \<lparr>world = 1, sent = [invoice_request]\<rparr>)"
proof -
  let ?step = "loop_step invoice_host [invoice_item] (Some ''http://localhost:3000'') (Some ''k1'')"
  have "?step (Loop 0 [] start_state) (Loop 1 [\<lparr>json = invoice_reply\<rparr>] \<lparr>world = 1, sent = [invoice_request]\<rparr>)"
    by (simp add: loop_step_iff_next invoice_item_step)
  moreover have "?step (Loop 1 [\<lparr>json = invoice_reply\<rparr>] \<lparr>world = 1, sent = [invoice_request]\<rparr>)
      (Returned [\<lparr>json = invoice_reply\<rparr>] \<lparr>world = 1, sent = [invoice_request]\<rparr>)"
    by (simp add: loop_step_iff_next)
  ultimately have r: "?step\<^sup>*\<^sup>* (Loop 0 [] start_state)
      (Returned [\<lparr>json = invoice_reply\<rparr>] \<lparr>world = 1, sent = [invoice_request]\<rparr>)"
    by (meson converse_rtranclp_into_rtranclp r_into_rtranclp)
  show ?thesis
    using Loop_Machine.loop_reachable_inv [OF r] r by blast
qed

theorem execute_undefined_credential_fields_witness:
  "credentials_of blank_credentials_host ''ReceiptliApi'' = Some Map.empty \<and>
   (Map.empty :: string \<rightharpoonup> string) ''baseUrl'' = None \<and>
   (Map.empty :: string \<rightharpoonup> string) ''apiKey'' = None \<and>
   execute blank_credentials_host =
     execute (blank_credentials_host\<lparr>credentials_of := (credentials_of blank_credentials_host)
       (''ReceiptliApi'' \<mapsto> Map.empty(''baseUrl'' \<mapsto> ''undefined'', ''apiKey'' \<mapsto> ''undefined''))\<rparr>)"
proof -
  have c: "credentials_of blank_credentials_host ''ReceiptliApi'' = Some Map.empty"
    by (simp add: blank_credentials_host_def)
  have b: "(Map.empty :: string \<rightharpoonup> string) ''baseUrl'' = None"
    and k: "(Map.empty :: string \<rightharpoonup> string) ''apiKey'' = None"
    by simp_all
  show ?thesis
    using Request_Format.execute_undefined_credential_fields [OF c b k] c b k by blast
qed

lemma busy_prepared:
  "prepare_request busy_host [invoice_item] (Some ''http://localhost:3000'') (Some ''k1'') 0 =
     Inr invoice_request"
  by (simp add: busy_host_def host_param_defs prepare_request_def js_get_binary_def build_request_def
      invoice_request_def extract_text_url_def bearer_def invoice_pdf_def invoice_item_def)

theorem execute_first_request_rejected_witness:
  "get_credentials busy_host ''ReceiptliApi'' = Inr invoice_credentials \<and>
   input_data busy_host \<noteq> [] \<and>
   prepare_request busy_host (input_data busy_host) (invoice_credentials ''baseUrl'')
     (invoice_credentials ''apiKey'') 0 = Inr invoice_request \<and>
   remote busy_host = http_transport busy_server \<and>
   busy_server (world start_state) invoice_request = (Reply 429 JNull 10, 1) \<and>
   (10::nat) \<le> 3600000 \<and> \<not> (200 \<le> (429::nat) \<and> (429::nat) < 300) \<and>
   execute busy_host start_state =
     (Inl (RequestError (HttpStatus 429)), start_state\<lparr>world := 1, sent := sent start_state @ [invoice_request]\<rparr>)"
proof -
  have c: "get_credentials busy_host ''ReceiptliApi'' = Inr invoice_credentials"
    by (simp add: get_credentials_def busy_host_def)
  have i: "input_data busy_host \<noteq> []" by (simp add: busy_host_def)
  have p: "prepare_request busy_host (input_data busy_host) (invoice_credentials ''baseUrl'')
     (invoice_credentials ''apiKey'') 0 = Inr invoice_request"
    using busy_prepared by (simp add: busy_host_def)
  have r: "remote busy_host = http_transport busy_server" by (simp add: busy_host_def)
  have v: "busy_server (world start_state) invoice_request = (Reply 429 JNull 10, 1)"
    by (simp add: busy_server_def start_state_def)
  show ?thesis
    using execute_first_request_rejected [OF c i p r v] c i p r v by simp
qed

theorem prepared_file_options_witness:
  "prepare_request unnamed_host (input_data unnamed_host) (Some ''http://localhost:3000'') (Some ''k1'') 0 =
     Inr (build_request (Some ''http://localhost:3000'') (Some ''k1'') (OwnEntry unnamed_pdf) invoice_bytes
            invoice_schema ''eng'') \<and>
   get_node_parameter unnamed_host ''binaryPropertyName'' 0 = Inr ''data'' \<and>
   item_binary (input_data unnamed_host ! 0) = Some [''data'' \<mapsto> unnamed_pdf] \<and>
   [''data'' \<mapsto> unnamed_pdf] ''data'' = Some unnamed_pdf \<and>
   get_binary_data_buffer unnamed_host 0 ''data'' = Inr invoice_bytes \<and>
   form_file (req_formData (build_request (Some ''http://localhost:3000'') (Some ''k1'') (OwnEntry unnamed_pdf)
       invoice_bytes invoice_schema ''eng'')) =
     \<lparr>file_value = invoice_bytes, file_filename = ''document.pdf'', file_contentType = ''application/pdf''\<rparr>"
proof -
  have p: "prepare_request unnamed_host (input_data unnamed_host) (Some ''http://localhost:3000'') (Some ''k1'') 0 =
     Inr (build_request (Some ''http://localhost:3000'') (Some ''k1'') (OwnEntry unnamed_pdf) invoice_bytes
            invoice_schema ''eng'')"
    by (simp add: unnamed_host_def host_param_defs prepare_request_def js_get_binary_def)
  have n: "get_node_parameter unnamed_host ''binaryPropertyName'' 0 = Inr ''data''"
    by (simp add: unnamed_host_def host_param_defs)
  have i: "item_binary (input_data unnamed_host ! 0) = Some [''data'' \<mapsto> unnamed_pdf]"
    by (simp add: unnamed_host_def)
  have o: "[''data'' \<mapsto> unnamed_pdf] ''data'' = Some unnamed_pdf" by simp
  have f: "get_binary_data_buffer unnamed_host 0 ''data'' = Inr invoice_bytes"
    by (simp add: unnamed_host_def host_param_defs)
  show ?thesis
    using Request_Format.prepared_file_options [OF p n i o f] p n i o f by (simp add: unnamed_pdf_def)
qed

lemma invoice_calls:
  "execute_calls invoice_host start_state =
     [GetInputData, GetCredentials ''ReceiptliApi'',
      GetNodeParameter ''binaryPropertyName'' 0, GetNodeParameter ''schema'' 0,
      GetNodeParameter ''language'' 0, GetBinaryDataBuffer 0 ''data'', HelpersRequest invoice_request]"
proof -
  have "body_calls invoice_host [invoice_item] (Some ''http://localhost:3000'') (Some ''k1'') 0 =
          item_calls 0 ''data'' invoice_request"
    using invoice_prepared
    by (simp add: body_calls_def prepare_request_def item_calls_def host_param_defs invoice_item_def
        split: sum.splits option.splits)
  then show ?thesis
    by (simp add: execute_calls_def get_credentials_def loop_calls.simps [of _ "[invoice_item]"]
        invoice_item_step item_calls_def)
qed

theorem execute_call_order_witness:
  "execute_calls invoice_host start_state =
     GetInputData # GetCredentials ''ReceiptliApi'' # concat [item_calls 0 ''data'' invoice_request] \<and>
   (\<exists>cs. execute_calls invoice_host start_state = GetInputData # GetCredentials ''ReceiptliApi'' # concat cs \<and>
        length cs \<le> length (input_data invoice_host) \<and>
        (\<forall>i < length cs. \<exists>p q. cs ! i \<noteq> [] \<and> prefix (cs ! i) (item_calls i p q) \<and>
            (Suc i < length cs \<or> \<not> isl (fst (execute invoice_host start_state)) \<longrightarrow> cs ! i = item_calls i p q)) \<and>
        (\<forall>i < length cs. \<forall>p. GetBinaryDataBuffer i p \<in> set (cs ! i) \<longrightarrow>
            (\<exists>obj e. item_binary (input_data invoice_host ! i) = Some obj \<and> js_get_binary obj p = Some e)) \<and>
        (\<not> isl (fst (execute invoice_host start_state)) \<longrightarrow> length cs = length (input_data invoice_host)))"
  using Host_Trace.execute_call_order [of invoice_host start_state] invoice_calls
  by (simp add: item_calls_def)

lemma busy_run:
  "execute busy_host start_state =
     (Inl (RequestError (HttpStatus 429)), \<lparr>world = 1, sent = [invoice_request]\<rparr>)"
proof -
  have c: "get_credentials busy_host ''ReceiptliApi'' = Inr invoice_credentials"
    by (simp add: get_credentials_def busy_host_def)
  have i: "input_data busy_host \<noteq> []" by (simp add: busy_host_def)
  have p: "prepare_request busy_host (input_data busy_host) (invoice_credentials ''baseUrl'')
     (invoice_credentials ''apiKey'') 0 = Inr invoice_request"
    using busy_prepared by (simp add: busy_host_def)
  have "remote busy_host (world start_state) invoice_request = (Inl (HttpStatus 429), 1)"
    by (simp add: busy_host_def http_transport_def busy_server_def start_state_def invoice_request_def)
  from execute_first_request_fails [OF c i p this] show ?thesis
    by (simp add: start_state_def)
qed

theorem execute_request_error_class_witness:
  "remote busy_host = http_transport busy_server \<and>
   execute busy_host start_state =
     (Inl (RequestError (HttpStatus 429)), \<lparr>world = 1, sent = [invoice_request]\<rparr>) \<and>
   (\<exists>q w. sent \<lparr>world = (1::nat), sent = [invoice_request]\<rparr> \<noteq> [] \<and>
          last (sent \<lparr>world = (1::nat), sent = [invoice_request]\<rparr>) = q \<and>
          world \<lparr>world = (1::nat), sent = [invoice_request]\<rparr> = snd (busy_server w q) \<and>
          req_timeout q = 3600000 \<and>
          (case fst (busy_server w q) of
             Unreachable \<Rightarrow> HttpStatus 429 = NetworkError
           | Reply st body lat \<Rightarrow>
               if 3600000 < lat then HttpStatus 429 = Timeout
               else \<not> (200 \<le> st \<and> st < 300) \<and> HttpStatus 429 = HttpStatus st))"
proof -
  have r: "remote busy_host = http_transport busy_server" by (simp add: busy_host_def)
  show ?thesis
    using execute_request_error_class [OF r busy_run] r busy_run by blast
qed

theorem execute_empty_input_witness:
  "input_data no_items_host = [] \<and>
   execute no_items_host start_state = (Inr [[]], start_state) \<and>
   execute_calls no_items_host start_state = [GetInputData, GetCredentials ''ReceiptliApi'']"
proof -
  have e: "input_data no_items_host = []" by (simp add: no_items_host_def)
  have c: "get_credentials no_items_host ''ReceiptliApi'' = Inr invoice_credentials"
    by (simp add: get_credentials_def no_items_host_def)
  show ?thesis
    using execute_empty_input [OF e, of start_state] e c by simp
qed

lemma json_prepared:
  "prepare_request json_host [invoice_item] (Some ''http://localhost:3000'') (Some ''k1'') 0 =
     Inr invoice_request"
  by (simp add: json_host_def host_param_defs prepare_request_def js_get_binary_def build_request_def
      invoice_request_def extract_text_url_def bearer_def invoice_pdf_def invoice_item_def)

lemma json_host_fields:
  "remote json_host = json_transport empty_object_parser text_server"
  "get_credentials json_host ''ReceiptliApi'' = Inr invoice_credentials"
  "input_data json_host = [invoice_item]"
  by (simp_all add: json_host_def get_credentials_def)

theorem execute_json_responses_witness:
  "remote json_host = json_transport empty_object_parser text_server \<and>
   get_credentials json_host ''ReceiptliApi'' = Inr invoice_credentials \<and>
   map (prepare_request json_host (input_data json_host) (invoice_credentials ''baseUrl'')
       (invoice_credentials ''apiKey'')) [0..<length (input_data json_host)] = map Inr [invoice_request] \<and>
   (\<forall>w q. \<exists>st lat w'. text_server w q = (Reply st ''<html>busy</html>'' lat, w') \<and>
          200 \<le> st \<and> st < 300 \<and> lat \<le> 3600000) \<and>
   fst (execute json_host start_state) = Inr [[\<lparr>json = TextBody ''<html>busy</html>''\<rparr>]]"
proof -
  have p: "map (prepare_request json_host (input_data json_host) (invoice_credentials ''baseUrl'')
       (invoice_credentials ''apiKey'')) [0..<length (input_data json_host)] = map Inr [invoice_request]"
    by (simp add: json_host_fields json_prepared)
  have ok: "\<forall>w q. \<exists>st lat w'. text_server w q = (Reply st ((\<lambda>q. ''<html>busy</html>'') q) lat, w') \<and>
          200 \<le> st \<and> st < 300 \<and> lat \<le> 3600000"
    by (simp add: text_server_def)
  show ?thesis
    using Host_Library.execute_json_responses [OF json_host_fields(1,2) p ok, of start_state]
      json_host_fields(1,2) p ok
    by (simp add: empty_object_parser_def)
qed

lemma prototype_params:
  "get_node_parameter prototype_host ''binaryPropertyName'' 0 = Inr ''toString''"
  "get_node_parameter prototype_host ''schema'' 0 = Inr invoice_schema"
  "get_node_parameter prototype_host ''language'' 0 = Inr ''eng''"
  by (simp_all add: host_param_defs)

theorem inherited_member_passes_binary_check_witness:
  "get_node_parameter prototype_host ''binaryPropertyName'' 0 = Inr ''toString'' \<and>
   get_node_parameter prototype_host ''schema'' 0 = Inr invoice_schema \<and>
   get_node_parameter prototype_host ''language'' 0 = Inr ''eng'' \<and>
   item_binary ([empty_item] ! 0) = Some Map.empty \<and>
   (Map.empty :: string \<rightharpoonup> binary_data) ''toString'' = None \<and>
   ''toString'' \<in> set object_prototype_members \<and>
   prepare_request prototype_host [empty_item] (Some ''http://localhost:3000'') (Some ''k1'') 0 =
     (case get_binary_data_buffer prototype_host 0 ''toString'' of
        Inl e \<Rightarrow> Inl e
      | Inr buf \<Rightarrow> Inr (build_request (Some ''http://localhost:3000'') (Some ''k1'')
                         (InheritedMember ''toString'') buf invoice_schema ''eng'')) \<and>
   prepare_request prototype_host [empty_item] (Some ''http://localhost:3000'') (Some ''k1'') 0 \<noteq>
     Inl (NodeError (no_binary_message ''toString'')) \<and>
   GetBinaryDataBuffer 0 ''toString'' \<in>
     set (body_calls prototype_host [empty_item] (Some ''http://localhost:3000'') (Some ''k1'') 0)"
proof -
  have i: "item_binary ([empty_item] ! 0) = Some Map.empty"
    by (simp add: empty_item_def)
  have o: "(Map.empty :: string \<rightharpoonup> binary_data) ''toString'' = None" by simp
  have m: "''toString'' \<in> set object_prototype_members"
    by (simp add: object_prototype_members_def)
  show ?thesis
    using inherited_member_passes_binary_check [OF prototype_params i o m,
        of "Some ''http://localhost:3000''" "Some ''k1''"]
      prototype_params i o m by blast
qed

end
